theory Spec2Isabelle
  imports Complex_Main "HOL-Library.Multiset" "HOL-Library.Product_Lexorder"
begin

section \<open>The search core of \<^verbatim>\<open>src/core/search/search.cc\<close>\<close>

text \<open>
  A shallow embedding of the query evaluator (\<^verbatim>\<open>BasicSearch\<close>), the result-set algebra
  (\<^verbatim>\<open>IndexResult\<close>), the profile builder and the field-index registry
  (\<^verbatim>\<open>FieldIndices\<close>).

  \<^item> \<^verbatim>\<open>DocId\<close> is an unsigned integer; no arithmetic is done on it, so it is a \<open>nat\<close>.
  \<^item> \<^verbatim>\<open>float\<close> and \<^verbatim>\<open>double\<close> values (range bounds, vector components, distances)
    are \<open>real\<close>: they are only compared and passed on. NaN and rounding are outside the model.
  \<^item> The index classes (\<^verbatim>\<open>TextIndex\<close>, \<^verbatim>\<open>NumericIndex\<close>, \<^verbatim>\<open>TagIndex\<close>, the vector and
    sort indices) live in other files. An index object is a value of a type variable \<open>'i\<close>,
    and its virtual methods are function parameters.
  \<^item> A \<^verbatim>\<open>DCHECK\<close> that fails aborts the run: the evaluator returns \<open>None\<close>.
  \<^item> A data member \<^verbatim>\<open>name_\<close> of a class is the record field \<open>name'\<close>.
\<close>

type_synonym DocId = nat

subsection \<open>The standard algorithms the code calls\<close>

text \<open>
  \<^verbatim>\<open>std::set_intersection(first1, last1, first2, last2, out)\<close>: while both ranges are
  non-empty, skip the smaller head; on equal heads copy the element of the first range and
  advance both.
\<close>

fun set_intersection :: "DocId list \<Rightarrow> DocId list \<Rightarrow> DocId list" where
  "set_intersection [] ys = []"
| "set_intersection (x # xs) [] = []"
| "set_intersection (x # xs) (y # ys) =
     (if x < y then set_intersection xs (y # ys)
      else if y < x then set_intersection (x # xs) ys
      else x # set_intersection xs ys)"

text \<open>
  \<^verbatim>\<open>std::set_union\<close>: when one range is exhausted copy the other; otherwise emit the
  smaller head, and on equal heads emit the element of the first range and advance both.
\<close>

fun set_union :: "DocId list \<Rightarrow> DocId list \<Rightarrow> DocId list" where
  "set_union [] ys = ys"
| "set_union (x # xs) [] = x # xs"
| "set_union (x # xs) (y # ys) =
     (if y < x then y # set_union (x # xs) ys
      else if x < y then x # set_union xs (y # ys)
      else x # set_union xs ys)"

text \<open>
  \<^verbatim>\<open>std::lower_bound(first, last, v)\<close> and \<^verbatim>\<open>std::upper_bound(first, last, v)\<close>
  halve the range: with \<^verbatim>\<open>len\<close> the length of what is left and
  \<^verbatim>\<open>middle = first + len / 2\<close>, \<^verbatim>\<open>lower_bound\<close> goes on in the right half,
  behind \<^verbatim>\<open>middle\<close>, when \<^verbatim>\<open>*middle < v\<close> and in the left half otherwise;
  \<^verbatim>\<open>upper_bound\<close> goes on in the left half when \<^verbatim>\<open>v < *middle\<close> and in the right
  half otherwise. Both return \<^verbatim>\<open>first\<close> when nothing is left. Positions are offsets from
  the beginning of the vector. The loops are written out, so that the model says what the
  code finds on a range that is not sorted as well.
\<close>

fun lower_bound_loop :: "DocId list \<Rightarrow> DocId \<Rightarrow> nat \<Rightarrow> nat \<Rightarrow> nat" where
  "lower_bound_loop xs d first len =
     (if len = 0 then first
      else if xs ! (first + len div 2) < d
      then lower_bound_loop xs d (first + len div 2 + 1) (len - len div 2 - 1)
      else lower_bound_loop xs d first (len div 2))"

fun upper_bound_loop :: "DocId list \<Rightarrow> DocId \<Rightarrow> nat \<Rightarrow> nat \<Rightarrow> nat" where
  "upper_bound_loop xs d first len =
     (if len = 0 then first
      else if d < xs ! (first + len div 2)
      then upper_bound_loop xs d first (len div 2)
      else upper_bound_loop xs d (first + len div 2 + 1) (len - len div 2 - 1))"

definition lower_bound :: "DocId list \<Rightarrow> DocId \<Rightarrow> nat" where
  "lower_bound xs d = lower_bound_loop xs d 0 (length xs)"

definition upper_bound :: "DocId list \<Rightarrow> DocId \<Rightarrow> nat" where
  "upper_bound xs d = upper_bound_loop xs d 0 (length xs)"

text \<open>
  \<^verbatim>\<open>std::binary_search(first, last, v)\<close> is
  \<^verbatim>\<open>first = lower_bound(first, last, v); return first != last && !(v < *first)\<close>.
\<close>

definition binary_search :: "DocId list \<Rightarrow> DocId \<Rightarrow> bool" where
  "binary_search xs d =
     (let it = lower_bound xs d in it \<noteq> length xs \<and> \<not> d < xs ! it)"

text \<open>\<^verbatim>\<open>v.insert(v.begin() + pos, d)\<close> and \<^verbatim>\<open>v.erase(v.begin() + pos)\<close>.\<close>

definition vec_insert :: "'a list \<Rightarrow> nat \<Rightarrow> 'a \<Rightarrow> 'a list" where
  "vec_insert xs pos d = take pos xs @ d # drop pos xs"

definition vec_erase :: "'a list \<Rightarrow> nat \<Rightarrow> 'a list" where
  "vec_erase xs pos = take pos xs @ drop (Suc pos) xs"

subsection \<open>\<^verbatim>\<open>IndexResult\<close>\<close>

text \<open>
  The containers an \<^verbatim>\<open>IndexResult\<close> borrows (\<^verbatim>\<open>BlockList\<close>, \<^verbatim>\<open>RangeResult\<close>) are declared
  elsewhere. The evaluator uses two things of a container: \<^verbatim>\<open>size()\<close> and the sequence
  \<^verbatim>\<open>begin() .. end()\<close>. A container is modelled as that pair; for a range result the
  reported size may exceed the number of elements iterated.
\<close>

record Container =
  csize :: nat
  celems :: "DocId list"

datatype IndexResult =
    DocVec "DocId list"
  | DocVecPtr "DocId list"
  | CompressedBlockListPtr Container
  | SortedBlockListPtr Container
  | RangeResult Container

text \<open>\<^verbatim>\<open>IndexResult()\<close> and \<^verbatim>\<open>IndexResult(nullptr)\<close>: an owned empty vector.\<close>

definition IndexResult_empty :: IndexResult where
  "IndexResult_empty = DocVec []"

text \<open>\<^verbatim>\<open>Borrowed()\<close>: the view of whichever alternative is held.\<close>

fun Borrowed :: "IndexResult \<Rightarrow> Container" where
  "Borrowed (DocVec v) = \<lparr>csize = length v, celems = v\<rparr>"
| "Borrowed (DocVecPtr v) = \<lparr>csize = length v, celems = v\<rparr>"
| "Borrowed (CompressedBlockListPtr c) = c"
| "Borrowed (SortedBlockListPtr c) = c"
| "Borrowed (RangeResult c) = c"

definition Size :: "IndexResult \<Rightarrow> nat" where
  "Size r = csize (Borrowed r)"

fun IsOwned :: "IndexResult \<Rightarrow> bool" where
  "IsOwned (DocVec v) = True"
| "IsOwned _ = False"

text \<open>\<^verbatim>\<open>Take()\<close>: move out of an owned vector, or copy the borrowed sequence.\<close>

fun Take :: "IndexResult \<Rightarrow> DocId list" where
  "Take (DocVec v) = v"
| "Take r = celems (Borrowed r)"

subsection \<open>\<^verbatim>\<open>Merge\<close> and \<^verbatim>\<open>UnifyResults\<close>\<close>

datatype LogicOp = AND | OR

text \<open>
  \<^verbatim>\<open>Merge(matched, &current, op)\<close>. The scratch vector \<^verbatim>\<open>tmp_vec_\<close> is cleared on entry
  and moved into \<^verbatim>\<open>current\<close> on exit, so it carries nothing from one call to the next
  and is left out of the state. The function returns the new value of \<^verbatim>\<open>current\<close>, which
  is always an owned vector.
\<close>

definition Merge :: "IndexResult \<Rightarrow> IndexResult \<Rightarrow> LogicOp \<Rightarrow> IndexResult" where
  "Merge matched current op =
     (if op = AND
      then DocVec (set_intersection (celems (Borrowed matched)) (celems (Borrowed current)))
      else DocVec (set_union (celems (Borrowed matched)) (celems (Borrowed current))))"

text \<open>
  \<^verbatim>\<open>UnifyResults\<close>: sort the children by ascending \<^verbatim>\<open>Size()\<close>, start from the first and
  merge the others into it one by one. \<^verbatim>\<open>std::sort\<close> leaves the order of children of equal
  size open; \<open>sort_key\<close> keeps them in their given order.
\<close>

definition UnifyResults :: "IndexResult list \<Rightarrow> LogicOp \<Rightarrow> IndexResult" where
  "UnifyResults sub_results op =
     (if sub_results = [] then IndexResult_empty
      else case sort_key Size sub_results of
        [] \<Rightarrow> IndexResult_empty
      | first # rest \<Rightarrow> fold (\<lambda>matched out. Merge matched out op) rest first)"

text \<open>A sorted-unique sequence: strictly ascending.\<close>

abbreviation sorted_unique :: "DocId list \<Rightarrow> bool" where
  "sorted_unique xs \<equiv> sorted_wrt (<) xs"

subsection \<open>\<^verbatim>\<open>Schema\<close>\<close>

text \<open>
  The schema types are declared in the header. Their shape is read off their uses here:
  \<^verbatim>\<open>field_info.type\<close>, \<^verbatim>\<open>field_info.flags & SchemaField::NOINDEX\<close>,
  \<^verbatim>\<open>field_info.short_name\<close> and \<^verbatim>\<open>std::get<...Params>(field_info.special_params)\<close>.
  The flag word is modelled as the set of the flags that are set. Of the parameter structs
  only the members this file reads are kept.
\<close>

datatype FieldType = TEXT | NUMERIC | TAG | VECTOR

datatype FieldFlags = NOINDEX | SORTABLE

datatype SpecialParams =
    TextParams (with_suffixtrie: bool)
  | NumericParams (block_size: nat)
  | TagParams
  | VectorParams (use_hnsw: bool)

record SchemaField =
  field_type :: FieldType
  flags :: "FieldFlags set"
  short_name :: string
  special_params :: SpecialParams

text \<open>
  Both maps of the schema are association lists: \<open>map_of\<close> is \<^verbatim>\<open>find\<close>, and the order of
  the list is the order in which a range-for visits the map. The member \<^verbatim>\<open>fields\<close> is
  \<open>schema_fields\<close> (the record package keeps the name \<open>fields\<close> for itself).
\<close>

record Schema =
  schema_fields :: "(string \<times> SchemaField) list"
  field_names :: "(string \<times> string) list"

definition LookupAlias :: "Schema \<Rightarrow> string \<Rightarrow> string" where
  "LookupAlias schema alias =
     (case map_of (field_names schema) alias of Some ident \<Rightarrow> ident | None \<Rightarrow> alias)"

definition LookupIdentifier :: "Schema \<Rightarrow> string \<Rightarrow> string" where
  "LookupIdentifier schema identifier =
     (case map_of (schema_fields schema) identifier of
        Some info \<Rightarrow> short_name info
      | None \<Rightarrow> identifier)"

subsection \<open>\<^verbatim>\<open>FieldIndices\<close>\<close>

text \<open>
  \<^verbatim>\<open>indices_\<close> and \<^verbatim>\<open>sort_indices_\<close> map a field identifier to the index object they
  own. \<^verbatim>\<open>synonyms_\<close> is a nullable pointer to a table of which only \<^verbatim>\<open>GetGroupToken\<close> is
  used.
\<close>

record 'i FieldIndices =
  schema' :: Schema
  indices' :: "(string \<times> 'i) list"
  sort_indices' :: "(string \<times> 'i) list"
  all_ids' :: "DocId list"
  synonyms' :: "(string \<Rightarrow> string option) option"

text \<open>
  The constructors of the index classes, one parameter for each \<^verbatim>\<open>make_unique\<close> of the
  file. The memory resource, the stop words and the synonyms they also receive do not
  matter to this file.
\<close>

record 'i index_makers =
  make_TextIndex :: "bool \<Rightarrow> 'i"
  make_NumericIndex :: "nat \<Rightarrow> 'i"
  make_TagIndex :: "'i"
  make_HnswVectorIndex :: "'i"
  make_FlatVectorIndex :: "'i"
  make_StringSortIndex :: "'i"
  make_NumericSortIndex :: "'i"

text \<open>\<^verbatim>\<open>m[key] = value\<close> on a map: replace the value of the key, or add the key.\<close>

fun map_assign :: "(string \<times> 'i) list \<Rightarrow> string \<Rightarrow> 'i \<Rightarrow> (string \<times> 'i) list" where
  "map_assign [] k v = [(k, v)]"
| "map_assign ((k', v') # m) k v =
     (if k' = k then (k, v) # m else (k', v') # map_assign m k v)"

text \<open>
  \<^verbatim>\<open>CreateIndices\<close>. \<^verbatim>\<open>std::get\<close> throws when the parameters are not those of the
  field's type (\<open>None\<close>).
\<close>

fun CreateIndices ::
  "'i index_makers \<Rightarrow> (string \<times> SchemaField) list \<Rightarrow> (string \<times> 'i) list
     \<Rightarrow> (string \<times> 'i) list option" where
  "CreateIndices mk [] ind = Some ind"
| "CreateIndices mk ((field_ident, field_info) # rest) ind =
     (if NOINDEX \<in> flags field_info then CreateIndices mk rest ind
      else case field_type field_info of
        TEXT \<Rightarrow>
          (case special_params field_info of
             TextParams suffixtrie \<Rightarrow>
               CreateIndices mk rest (map_assign ind field_ident (make_TextIndex mk suffixtrie))
           | _ \<Rightarrow> None)
      | NUMERIC \<Rightarrow>
          (case special_params field_info of
             NumericParams bs \<Rightarrow>
               CreateIndices mk rest (map_assign ind field_ident (make_NumericIndex mk bs))
           | _ \<Rightarrow> None)
      | TAG \<Rightarrow>
          (case special_params field_info of
             TagParams \<Rightarrow> CreateIndices mk rest (map_assign ind field_ident (make_TagIndex mk))
           | _ \<Rightarrow> None)
      | VECTOR \<Rightarrow>
          (case special_params field_info of
             VectorParams hnsw \<Rightarrow>
               CreateIndices mk rest
                 (map_assign ind field_ident
                    (if hnsw then make_HnswVectorIndex mk else make_FlatVectorIndex mk))
           | _ \<Rightarrow> None))"

fun CreateSortIndices ::
  "'i index_makers \<Rightarrow> (string \<times> SchemaField) list \<Rightarrow> (string \<times> 'i) list
     \<Rightarrow> (string \<times> 'i) list" where
  "CreateSortIndices mk [] sind = sind"
| "CreateSortIndices mk ((field_ident, field_info) # rest) sind =
     (if SORTABLE \<notin> flags field_info then CreateSortIndices mk rest sind
      else case field_type field_info of
        TAG \<Rightarrow> CreateSortIndices mk rest (map_assign sind field_ident (make_StringSortIndex mk))
      | TEXT \<Rightarrow> CreateSortIndices mk rest (map_assign sind field_ident (make_StringSortIndex mk))
      | NUMERIC \<Rightarrow>
          CreateSortIndices mk rest (map_assign sind field_ident (make_NumericSortIndex mk))
      | VECTOR \<Rightarrow> CreateSortIndices mk rest sind)"

definition FieldIndices_new ::
  "'i index_makers \<Rightarrow> Schema \<Rightarrow> (string \<Rightarrow> string option) option \<Rightarrow> 'i FieldIndices option" where
  "FieldIndices_new mk schema synonyms =
     (case CreateIndices mk (schema_fields schema) [] of
        None \<Rightarrow> None
      | Some ind \<Rightarrow>
          Some \<lparr>schema' = schema, indices' = ind,
                sort_indices' = CreateSortIndices mk (schema_fields schema) [],
                all_ids' = [], synonyms' = synonyms\<rparr>)"

text \<open>
  \<^verbatim>\<open>Add\<close> and \<^verbatim>\<open>Remove\<close> of an index object are virtual: \<open>iAdd doc access field index\<close>
  returns the result and the object after the call, \<open>iRemove doc access field index\<close> the
  object after the call. The document accessor is a value of a type variable \<open>'a\<close>.

  The vector \<^verbatim>\<open>successfully_added_indices\<close> holds pairs of a field and a pointer to an
  index object. The object is owned by the entry of that field in one of the two maps, so the
  pointer is modelled by the map it points into, with the field as the key.

  The calls made on index objects are recorded in the order they are made.
\<close>

datatype IndexMap = Indices | SortIndices

datatype IndexCall =
    AddCall string IndexMap bool
  | RemoveCall string IndexMap

record AddState =
  was_added :: bool
  successfully_added_indices :: "(string \<times> IndexMap) list"
  calls :: "IndexCall list"

text \<open>The lambda \<^verbatim>\<open>try_add\<close>: the loop over one of the two maps.\<close>

fun try_add ::
  "(DocId \<Rightarrow> 'a \<Rightarrow> string \<Rightarrow> 'i \<Rightarrow> bool \<times> 'i) \<Rightarrow> DocId \<Rightarrow> 'a \<Rightarrow> IndexMap
     \<Rightarrow> (string \<times> 'i) list \<Rightarrow> AddState \<Rightarrow> (string \<times> 'i) list \<times> AddState" where
  "try_add iAdd doc access m [] st = ([], st)"
| "try_add iAdd doc access m ((field, index) # rest) st =
     (case iAdd doc access field index of
        (True, index') \<Rightarrow>
          (case try_add iAdd doc access m rest
                  (st\<lparr>successfully_added_indices := successfully_added_indices st @ [(field, m)],
                      calls := calls st @ [AddCall field m True]\<rparr>) of
             (rest', st') \<Rightarrow> ((field, index') # rest', st'))
      | (False, index') \<Rightarrow>
          ((field, index') # rest,
           st\<lparr>was_added := False, calls := calls st @ [AddCall field m False]\<rparr>))"

text \<open>\<^verbatim>\<open>index->Remove(doc, access, field)\<close> through a recorded pointer.\<close>

fun remove_at ::
  "(DocId \<Rightarrow> 'a \<Rightarrow> string \<Rightarrow> 'i \<Rightarrow> 'i) \<Rightarrow> DocId \<Rightarrow> 'a \<Rightarrow> string
     \<Rightarrow> (string \<times> 'i) list \<Rightarrow> (string \<times> 'i) list" where
  "remove_at iRemove doc access field [] = []"
| "remove_at iRemove doc access field ((k, index) # m) =
     (if k = field then (k, iRemove doc access field index) # m
      else (k, index) # remove_at iRemove doc access field m)"

text \<open>The roll-back loop of \<^verbatim>\<open>Add\<close>: a range-for over \<^verbatim>\<open>successfully_added_indices\<close>.\<close>

fun roll_back ::
  "(DocId \<Rightarrow> 'a \<Rightarrow> string \<Rightarrow> 'i \<Rightarrow> 'i) \<Rightarrow> DocId \<Rightarrow> 'a \<Rightarrow> (string \<times> IndexMap) list
     \<Rightarrow> 'i FieldIndices \<times> IndexCall list \<Rightarrow> 'i FieldIndices \<times> IndexCall list" where
  "roll_back iRemove doc access [] (fi, cs) = (fi, cs)"
| "roll_back iRemove doc access ((field, Indices) # rest) (fi, cs) =
     roll_back iRemove doc access rest
       (fi\<lparr>indices' := remove_at iRemove doc access field (indices' fi)\<rparr>,
        cs @ [RemoveCall field Indices])"
| "roll_back iRemove doc access ((field, SortIndices) # rest) (fi, cs) =
     roll_back iRemove doc access rest
       (fi\<lparr>sort_indices' := remove_at iRemove doc access field (sort_indices' fi)\<rparr>,
        cs @ [RemoveCall field SortIndices])"

text \<open>
  \<^verbatim>\<open>FieldIndices::Add\<close>. The result is the returned flag, the registry after the call and
  the calls made on index objects.
\<close>

definition FieldIndices_Add ::
  "(DocId \<Rightarrow> 'a \<Rightarrow> string \<Rightarrow> 'i \<Rightarrow> bool \<times> 'i) \<Rightarrow> (DocId \<Rightarrow> 'a \<Rightarrow> string \<Rightarrow> 'i \<Rightarrow> 'i)
     \<Rightarrow> DocId \<Rightarrow> 'a \<Rightarrow> 'i FieldIndices \<Rightarrow> bool \<times> 'i FieldIndices \<times> IndexCall list" where
  "FieldIndices_Add iAdd iRemove doc access fi =
     (let st0 = \<lparr>was_added = True, successfully_added_indices = [], calls = []\<rparr>;
          (ind1, st1) = try_add iAdd doc access Indices (indices' fi) st0;
          (sind1, st2) =
             (if was_added st1 then try_add iAdd doc access SortIndices (sort_indices' fi) st1
              else (sort_indices' fi, st1));
          fi1 = fi\<lparr>indices' := ind1, sort_indices' := sind1\<rparr>
      in if \<not> was_added st2
         then (case roll_back iRemove doc access (successfully_added_indices st2)
                      (fi1, calls st2) of
                 (fi2, cs) \<Rightarrow> (False, fi2, cs))
         else (True,
               fi1\<lparr>all_ids' := vec_insert (all_ids' fi1) (upper_bound (all_ids' fi1) doc) doc\<rparr>,
               calls st2))"

text \<open>
  \<^verbatim>\<open>FieldIndices::Remove\<close>. The \<^verbatim>\<open>DCHECK\<close> that the document is in \<^verbatim>\<open>all_ids_\<close> is the
  \<open>None\<close> branch.
\<close>

fun remove_all ::
  "(DocId \<Rightarrow> 'a \<Rightarrow> string \<Rightarrow> 'i \<Rightarrow> 'i) \<Rightarrow> DocId \<Rightarrow> 'a \<Rightarrow> (string \<times> 'i) list
     \<Rightarrow> (string \<times> 'i) list" where
  "remove_all iRemove doc access [] = []"
| "remove_all iRemove doc access ((field, index) # rest) =
     (field, iRemove doc access field index) # remove_all iRemove doc access rest"

definition FieldIndices_Remove ::
  "(DocId \<Rightarrow> 'a \<Rightarrow> string \<Rightarrow> 'i \<Rightarrow> 'i) \<Rightarrow> DocId \<Rightarrow> 'a \<Rightarrow> 'i FieldIndices
     \<Rightarrow> 'i FieldIndices option" where
  "FieldIndices_Remove iRemove doc access fi =
     (let ind1 = remove_all iRemove doc access (indices' fi);
          sind1 = remove_all iRemove doc access (sort_indices' fi);
          it = lower_bound (all_ids' fi) doc
      in if \<not> (it \<noteq> length (all_ids' fi) \<and> all_ids' fi ! it = doc) then None
         else Some (fi\<lparr>indices' := ind1, sort_indices' := sind1,
                        all_ids' := vec_erase (all_ids' fi) it\<rparr>))"

definition FieldIndices_GetIndex :: "'i FieldIndices \<Rightarrow> string \<Rightarrow> 'i option" where
  "FieldIndices_GetIndex fi field = map_of (indices' fi) (LookupAlias (schema' fi) field)"

definition FieldIndices_GetSortIndex :: "'i FieldIndices \<Rightarrow> string \<Rightarrow> 'i option" where
  "FieldIndices_GetSortIndex fi field =
     map_of (sort_indices' fi) (LookupAlias (schema' fi) field)"

definition GetAllDocs :: "'i FieldIndices \<Rightarrow> DocId list" where
  "GetAllDocs fi = all_ids' fi"

definition GetSynonyms :: "'i FieldIndices \<Rightarrow> (string \<Rightarrow> string option) option" where
  "GetSynonyms fi = synonyms' fi"

subsection \<open>The query tree\<close>

text \<open>
  The tree is declared in \<^verbatim>\<open>ast_expr.h\<close>; the alternatives and the members are those this
  file visits and reads. A tag value is one of the four affix nodes. The vector of a KNN node
  is the pair of its components and its declared dimension.
\<close>

datatype TagValue =
    TagTerm string
  | TagPrefix string
  | TagSuffix string
  | TagInfix string

datatype AstNode =
    Monostate
  | AstStarNode
  | AstStarFieldNode
  | AstTermNode string
  | AstPrefixNode string
  | AstSuffixNode string
  | AstInfixNode string
  | AstRangeNode real real
  | AstNegateNode AstNode
  | AstLogicalNode LogicOp "AstNode list"
  | AstFieldNode string AstNode
  | AstTagsNode "TagValue list"
  | AstKnnNode nat string "real list \<times> nat" "nat option" string AstNode

text \<open>
  The arguments of \<open>AstKnnNode\<close> are \<^verbatim>\<open>limit\<close>, \<^verbatim>\<open>field\<close>, \<^verbatim>\<open>vec\<close>, \<^verbatim>\<open>ef_runtime\<close>,
  \<^verbatim>\<open>score_alias\<close> and \<^verbatim>\<open>filter\<close>.
\<close>

fun is_AstKnnNode :: "AstNode \<Rightarrow> bool" where
  "is_AstKnnNode (AstKnnNode limit field vec ef_runtime score_alias knn_filter) = True"
| "is_AstKnnNode _ = False"

subsection \<open>The index classes, as the evaluator sees them\<close>

text \<open>
  \<open>dynamic_type\<close> is the class of an index object, which \<^verbatim>\<open>dynamic_cast\<close> tests. A
  \<^verbatim>\<open>MatchPrefix\<close>, \<^verbatim>\<open>MatchSuffix\<close> or \<^verbatim>\<open>MatchInfix\<close> call hands containers to a callback one
  by one: the method is modelled by the list of those containers. \<open>Matching\<close> is the call with
  the \<^verbatim>\<open>strip_whitespace\<close> argument, \<open>TagMatching\<close> the call of a tag index with the tag alone.
\<close>

datatype IndexKind =
    TextIndex | NumericIndex | TagIndex | FlatVectorIndex | HnswVectorIndex
  | StringSortIndex | NumericSortIndex

datatype VectorSimilarity = L2 | COSINE

record 'i index_ops =
  dynamic_type :: "'i \<Rightarrow> IndexKind"
  GetAllDocsWithNonNullValues :: "'i \<Rightarrow> DocId list"
  Matching :: "'i \<Rightarrow> string \<Rightarrow> bool \<Rightarrow> IndexResult"
  TagMatching :: "'i \<Rightarrow> string \<Rightarrow> IndexResult"
  MatchPrefix :: "'i \<Rightarrow> string \<Rightarrow> IndexResult list"
  MatchSuffix :: "'i \<Rightarrow> string \<Rightarrow> IndexResult list"
  MatchInfix :: "'i \<Rightarrow> string \<Rightarrow> IndexResult list"
  NumericRange :: "'i \<Rightarrow> real \<Rightarrow> real \<Rightarrow> Container"
  Info :: "'i \<Rightarrow> nat \<times> VectorSimilarity"
  Get :: "'i \<Rightarrow> DocId \<Rightarrow> real list"
  Knn :: "'i \<Rightarrow> real list \<Rightarrow> nat \<Rightarrow> nat option \<Rightarrow> DocId list option \<Rightarrow> (real \<times> DocId) list"

text \<open>
  What a \<^verbatim>\<open>BasicSearch\<close> works against: the registry it points to, the index classes, the
  free function \<^verbatim>\<open>VectorDistance\<close>, the steady clock (the time of its n-th reading) and
  the formatting of a \<^verbatim>\<open>double\<close> by \<^verbatim>\<open>absl::StrCat\<close>.
\<close>

record 'i SearchEnv =
  search_indices :: "'i FieldIndices"
  ops :: "'i index_ops"
  VectorDistance :: "real list \<Rightarrow> real list \<Rightarrow> nat \<Rightarrow> VectorSimilarity \<Rightarrow> real"
  steady_clock_now :: "nat \<Rightarrow> nat"
  StrCat_double :: "real \<Rightarrow> string"

fun GetAllTextIndices_loop ::
  "'i index_ops \<Rightarrow> 'i FieldIndices \<Rightarrow> (string \<times> SchemaField) list \<Rightarrow> 'i list option" where
  "GetAllTextIndices_loop io fi [] = Some []"
| "GetAllTextIndices_loop io fi ((field_name, field_info) # rest) =
     (if field_type field_info \<noteq> TEXT \<or> NOINDEX \<in> flags field_info
      then GetAllTextIndices_loop io fi rest
      else case FieldIndices_GetIndex fi field_name of
        None \<Rightarrow> None
      | Some index \<Rightarrow>
          if dynamic_type io index \<noteq> TextIndex then None
          else map_option ((#) index) (GetAllTextIndices_loop io fi rest))"

text \<open>
  \<^verbatim>\<open>FieldIndices::GetAllTextIndices\<close>; \<open>None\<close> when \<^verbatim>\<open>DCHECK(index)\<close> fails.
\<close>

definition GetAllTextIndices :: "'i SearchEnv \<Rightarrow> 'i list option" where
  "GetAllTextIndices E =
     GetAllTextIndices_loop (ops E) (search_indices E)
       (schema_fields (schema' (search_indices E)))"

subsection \<open>\<^verbatim>\<open>ProfileBuilder\<close>\<close>

record ProfileEvent =
  descr :: string
  micros :: nat
  depth :: nat
  num_processed :: nat

record AlgorithmProfile =
  events :: "ProfileEvent list"

record ProfileBuilder =
  depth' :: nat
  profile' :: AlgorithmProfile

text \<open>
  Every \<^verbatim>\<open>ProfileBuilder\<close> of the file is made by \<^verbatim>\<open>ProfileBuilder{}\<close>. The class has no
  constructor of its own, so the empty braces value-initialise the object: \<^verbatim>\<open>depth_\<close>
  starts at zero and the event list is empty.
\<close>

definition ProfileBuilder_new :: ProfileBuilder where
  "ProfileBuilder_new = \<lparr>depth' = 0, profile' = \<lparr>events = []\<rparr>\<rparr>"

text \<open>\<^verbatim>\<open>absl::StrCat\<close> of an unsigned integer: its decimal digits.\<close>

fun StrCat_nat :: "nat \<Rightarrow> string" where
  "StrCat_nat n =
     (if n < 10 then [char_of (48 + n)]
      else StrCat_nat (n div 10) @ [char_of (48 + n mod 10)])"

fun StrJoin :: "string list \<Rightarrow> string \<Rightarrow> string" where
  "StrJoin [] sep = []"
| "StrJoin [x] sep = x"
| "StrJoin (x # y # ys) sep = x @ sep @ StrJoin (y # ys) sep"

fun NodeFormatter :: "TagValue \<Rightarrow> string" where
  "NodeFormatter (TagTerm affix) = affix"
| "NodeFormatter (TagPrefix affix) = affix"
| "NodeFormatter (TagSuffix affix) = affix"
| "NodeFormatter (TagInfix affix) = affix"

fun GetNodeInfo :: "(real \<Rightarrow> string) \<Rightarrow> AstNode \<Rightarrow> string" where
  "GetNodeInfo fmt Monostate = []"
| "GetNodeInfo fmt (AstTermNode affix) = ''Term{'' @ affix @ ''}''"
| "GetNodeInfo fmt (AstPrefixNode affix) = ''Prefix{'' @ affix @ ''}''"
| "GetNodeInfo fmt (AstSuffixNode affix) = ''Suffix{'' @ affix @ ''}''"
| "GetNodeInfo fmt (AstInfixNode affix) = ''Infix{'' @ affix @ ''}''"
| "GetNodeInfo fmt (AstRangeNode lo hi) = ''Range{'' @ fmt lo @ ''<>'' @ fmt hi @ ''}''"
| "GetNodeInfo fmt (AstLogicalNode op nodes) =
     ''Logical{n='' @ StrCat_nat (length nodes) @ '',o=''
       @ (if op = AND then ''and'' else ''or'') @ ''}''"
| "GetNodeInfo fmt (AstTagsNode tags) = ''Tags{'' @ StrJoin (map NodeFormatter tags) '','' @ ''}''"
| "GetNodeInfo fmt (AstFieldNode field node) = ''Field{'' @ field @ ''}''"
| "GetNodeInfo fmt (AstKnnNode limit field vec ef_runtime score_alias knn_filter) =
     ''KNN{l='' @ StrCat_nat limit @ ''}''"
| "GetNodeInfo fmt (AstNegateNode node) = ''Negate{}''"
| "GetNodeInfo fmt AstStarNode = ''Star{}''"
| "GetNodeInfo fmt AstStarFieldNode = ''StarField{}''"

text \<open>\<^verbatim>\<open>Start\<close>; the time it returns is read by the caller.\<close>

definition ProfileBuilder_Start :: "ProfileBuilder \<Rightarrow> ProfileBuilder" where
  "ProfileBuilder_Start pb = pb\<lparr>depth' := depth' pb + 1\<rparr>"

text \<open>
  \<^verbatim>\<open>Finish(start, node, result)\<close>, with the time \<open>now\<close> it reads; \<open>None\<close> when
  \<^verbatim>\<open>DCHECK_GE(depth_, 1u)\<close> fails.
\<close>

definition ProfileBuilder_Finish ::
  "(real \<Rightarrow> string) \<Rightarrow> nat \<Rightarrow> nat \<Rightarrow> AstNode \<Rightarrow> IndexResult \<Rightarrow> ProfileBuilder
     \<Rightarrow> ProfileBuilder option" where
  "ProfileBuilder_Finish fmt now start node result pb =
     (if \<not> 1 \<le> depth' pb then None
      else Some (pb\<lparr>profile' := (profile' pb)\<lparr>events := events (profile' pb) @
                        [\<lparr>descr = GetNodeInfo fmt node, micros = now - start,
                          depth = depth' pb - 1, num_processed = Size result\<rparr>]\<rparr>,
                     depth' := depth' pb - 1\<rparr>))"

definition ProfileBuilder_Take :: "ProfileBuilder \<Rightarrow> AlgorithmProfile" where
  "ProfileBuilder_Take pb = (profile' pb)\<lparr>events := rev (events (profile' pb))\<rparr>"

subsection \<open>\<^verbatim>\<open>BasicSearch\<close>\<close>

text \<open>
  The data members of the evaluator that change during a query, and the number of times the
  clock has been read.
\<close>

record BasicSearch =
  preagg_total' :: nat
  error' :: string
  profile_builder' :: "ProfileBuilder option"
  knn_scores' :: "(DocId \<times> real) list"
  knn_distances' :: "(real \<times> DocId) list"
  clock_reads :: nat

definition BasicSearch_new :: BasicSearch where
  "BasicSearch_new =
     \<lparr>preagg_total' = 0, error' = [], profile_builder' = Some ProfileBuilder_new,
      knn_scores' = [], knn_distances' = [], clock_reads = 0\<rparr>"

definition EnableProfiling :: "BasicSearch \<Rightarrow> BasicSearch" where
  "EnableProfiling s = s\<lparr>profile_builder' := Some ProfileBuilder_new\<rparr>"

definition GetBaseIndex :: "'i SearchEnv \<Rightarrow> string \<Rightarrow> BasicSearch \<Rightarrow> 'i option \<times> BasicSearch" where
  "GetBaseIndex E field s =
     (case FieldIndices_GetIndex (search_indices E) field of
        None \<Rightarrow> (None, s\<lparr>error' := ''Invalid field: '' @ field\<rparr>)
      | Some index \<Rightarrow> (Some index, s))"

text \<open>
  \<^verbatim>\<open>GetIndex<T>\<close>: the class \<^verbatim>\<open>T\<close> is given by the test \<open>is_T\<close> of the dynamic type.
\<close>

definition GetIndex ::
  "'i SearchEnv \<Rightarrow> (IndexKind \<Rightarrow> bool) \<Rightarrow> string \<Rightarrow> BasicSearch \<Rightarrow> 'i option \<times> BasicSearch" where
  "GetIndex E is_T field s =
     (case GetBaseIndex E field s of
        (None, s1) \<Rightarrow> (None, s1)
      | (Some base_index, s1) \<Rightarrow>
          if \<not> is_T (dynamic_type (ops E) base_index)
          then (None, s1\<lparr>error' := ''Wrong access type for field: '' @ field\<rparr>)
          else (Some base_index, s1))"

definition is_TextIndex :: "IndexKind \<Rightarrow> bool" where
  "is_TextIndex k = (k = TextIndex)"

definition is_NumericIndex :: "IndexKind \<Rightarrow> bool" where
  "is_NumericIndex k = (k = NumericIndex)"

definition is_TagIndex :: "IndexKind \<Rightarrow> bool" where
  "is_TagIndex k = (k = TagIndex)"

definition is_BaseVectorIndex :: "IndexKind \<Rightarrow> bool" where
  "is_BaseVectorIndex k = (k = FlatVectorIndex \<or> k = HnswVectorIndex)"

definition is_HnswVectorIndex :: "IndexKind \<Rightarrow> bool" where
  "is_HnswVectorIndex k = (k = HnswVectorIndex)"

text \<open>
  \<^verbatim>\<open>CollectMatches(index, word, f)\<close>: every container \<^verbatim>\<open>f\<close> hands over is merged into the
  result with \<^verbatim>\<open>OR\<close>.
\<close>

definition CollectMatches ::
  "('i \<Rightarrow> string \<Rightarrow> IndexResult list) \<Rightarrow> 'i \<Rightarrow> string \<Rightarrow> IndexResult" where
  "CollectMatches f index word =
     fold (\<lambda>c result. Merge c result OR) (f index word) IndexResult_empty"

definition Search_Star :: "'i SearchEnv \<Rightarrow> string \<Rightarrow> BasicSearch \<Rightarrow> (IndexResult \<times> BasicSearch) option" where
  "Search_Star E active_field s =
     (if active_field \<noteq> [] then None
      else Some (DocVecPtr (GetAllDocs (search_indices E)), s))"

definition Search_StarField ::
  "'i SearchEnv \<Rightarrow> string \<Rightarrow> BasicSearch \<Rightarrow> (IndexResult \<times> BasicSearch) option" where
  "Search_StarField E active_field s =
     (case FieldIndices_GetSortIndex (search_indices E) active_field of
        Some sort_index \<Rightarrow> Some (DocVec (GetAllDocsWithNonNullValues (ops E) sort_index), s)
      | None \<Rightarrow>
          (case GetBaseIndex E active_field s of
             (Some base_index, s1) \<Rightarrow>
               Some (DocVec (GetAllDocsWithNonNullValues (ops E) base_index), s1)
           | (None, s1) \<Rightarrow> Some (IndexResult_empty, s1)))"

text \<open>
  The template for prefix, suffix and infix nodes; \<open>f\<close> is the matching method of the node's
  kind.
\<close>

definition Search_Affix ::
  "'i SearchEnv \<Rightarrow> ('i \<Rightarrow> string \<Rightarrow> IndexResult list) \<Rightarrow> string \<Rightarrow> string \<Rightarrow> BasicSearch
     \<Rightarrow> (IndexResult \<times> BasicSearch) option" where
  "Search_Affix E f affix active_field s =
     (if active_field \<noteq> []
      then (case GetIndex E is_TextIndex active_field s of
              (Some index, s1) \<Rightarrow>
                Some (UnifyResults (map (\<lambda>index. CollectMatches f index affix) [index]) OR, s1)
            | (None, s1) \<Rightarrow> Some (IndexResult_empty, s1))
      else (case GetAllTextIndices E of
              None \<Rightarrow> None
            | Some indices \<Rightarrow>
                Some (UnifyResults (map (\<lambda>index. CollectMatches f index affix) indices) OR, s)))"

definition Search_Term ::
  "'i SearchEnv \<Rightarrow> string \<Rightarrow> string \<Rightarrow> BasicSearch \<Rightarrow> (IndexResult \<times> BasicSearch) option" where
  "Search_Term E affix active_field s =
     (let (term, strip_whitespace) =
            (case GetSynonyms (search_indices E) of
               None \<Rightarrow> (affix, True)
             | Some GetGroupToken \<Rightarrow>
                 (case GetGroupToken affix of
                    None \<Rightarrow> (affix, True)
                  | Some group_id \<Rightarrow> (group_id, False)))
      in if active_field \<noteq> []
         then (case GetIndex E is_TextIndex active_field s of
                 (Some index, s1) \<Rightarrow> Some (Matching (ops E) index term strip_whitespace, s1)
               | (None, s1) \<Rightarrow> Some (IndexResult_empty, s1))
         else (case GetAllTextIndices E of
                 None \<Rightarrow> None
               | Some selected_indices \<Rightarrow>
                   Some (UnifyResults
                           (map (\<lambda>index. Matching (ops E) index term strip_whitespace)
                              selected_indices) OR, s)))"

definition Search_Range ::
  "'i SearchEnv \<Rightarrow> real \<Rightarrow> real \<Rightarrow> string \<Rightarrow> BasicSearch \<Rightarrow> (IndexResult \<times> BasicSearch) option" where
  "Search_Range E lo hi active_field s =
     (if active_field = [] then None
      else case GetIndex E is_NumericIndex active_field s of
        (Some index, s1) \<Rightarrow> Some (RangeResult (NumericRange (ops E) index lo hi), s1)
      | (None, s1) \<Rightarrow> Some (IndexResult_empty, s1))"

fun Search_TagValue :: "'i SearchEnv \<Rightarrow> 'i \<Rightarrow> TagValue \<Rightarrow> IndexResult" where
  "Search_TagValue E tag_index (TagTerm affix) = TagMatching (ops E) tag_index affix"
| "Search_TagValue E tag_index (TagPrefix affix) =
     CollectMatches (MatchPrefix (ops E)) tag_index affix"
| "Search_TagValue E tag_index (TagSuffix affix) =
     CollectMatches (MatchSuffix (ops E)) tag_index affix"
| "Search_TagValue E tag_index (TagInfix affix) =
     CollectMatches (MatchInfix (ops E)) tag_index affix"

definition Search_Tags ::
  "'i SearchEnv \<Rightarrow> TagValue list \<Rightarrow> string \<Rightarrow> BasicSearch \<Rightarrow> (IndexResult \<times> BasicSearch) option" where
  "Search_Tags E tags active_field s =
     (case GetIndex E is_TagIndex active_field s of
        (None, s1) \<Rightarrow> Some (IndexResult_empty, s1)
      | (Some tag_index, s1) \<Rightarrow>
          Some (UnifyResults (map (Search_TagValue E tag_index) tags) OR, s1))"

text \<open>
  The second half of the negate node: \<^verbatim>\<open>all.erase(remove_if(all.begin(), all.end(), pred),
  all.end())\<close> keeps, in order, the documents of \<^verbatim>\<open>all\<close> that \<^verbatim>\<open>pred\<close> rejects.
\<close>

definition negate_matched :: "DocId list \<Rightarrow> DocId list \<Rightarrow> DocId list" where
  "negate_matched all matched = filter (\<lambda>doc. \<not> binary_search matched doc) all"

text \<open>
  \<^verbatim>\<open>std::partial_sort(first, middle, last)\<close> puts the smallest elements, sorted, in front of
  \<^verbatim>\<open>middle\<close> and leaves the order of the others open. Pairs are compared lexicographically.
  The model sorts the whole range; the caller keeps the part before \<^verbatim>\<open>middle\<close> only.
\<close>

definition partial_sort :: "(real \<times> DocId) list \<Rightarrow> nat \<Rightarrow> (real \<times> DocId) list" where
  "partial_sort xs middle = sort xs"

definition SearchKnnFlat ::
  "'i SearchEnv \<Rightarrow> 'i \<Rightarrow> nat \<Rightarrow> real list \<times> nat \<Rightarrow> IndexResult \<Rightarrow> BasicSearch \<Rightarrow> BasicSearch" where
  "SearchKnnFlat E vec_index limit vec sub_results s =
     (let (dim, sim) = Info (ops E) vec_index;
          kd = knn_distances' s @
                 map (\<lambda>matched_doc.
                        (VectorDistance E (fst vec) (Get (ops E) vec_index matched_doc) dim sim,
                         matched_doc))
                   (celems (Borrowed sub_results));
          prefix_size = min limit (length kd)
      in s\<lparr>knn_distances' := take prefix_size (partial_sort kd prefix_size)\<rparr>)"

definition SearchKnnHnsw ::
  "'i SearchEnv \<Rightarrow> 'i \<Rightarrow> nat \<Rightarrow> real list \<times> nat \<Rightarrow> nat option \<Rightarrow> IndexResult \<Rightarrow> BasicSearch
     \<Rightarrow> BasicSearch" where
  "SearchKnnHnsw E vec_index limit vec ef_runtime sub_results s =
     (if length (GetAllDocs (search_indices E)) = Size sub_results
      then s\<lparr>knn_distances' := Knn (ops E) vec_index (fst vec) limit ef_runtime None\<rparr>
      else s\<lparr>knn_distances' :=
               Knn (ops E) vec_index (fst vec) limit ef_runtime (Some (Take sub_results))\<rparr>)"

text \<open>The KNN node after its filter has been evaluated to \<open>sub_results\<close>.\<close>

definition Search_Knn ::
  "'i SearchEnv \<Rightarrow> nat \<Rightarrow> string \<Rightarrow> real list \<times> nat \<Rightarrow> nat option \<Rightarrow> IndexResult \<Rightarrow> BasicSearch
     \<Rightarrow> IndexResult \<times> BasicSearch" where
  "Search_Knn E limit field vec ef_runtime sub_results s =
     (case GetIndex E is_BaseVectorIndex field s of
        (None, s1) \<Rightarrow> (IndexResult_empty, s1)
      | (Some vec_index, s1) \<Rightarrow>
          (let (dim, sim) = Info (ops E) vec_index in
           if dim \<noteq> snd vec
           then (IndexResult_empty,
                 s1\<lparr>error' := ''Wrong vector index dimensions, got: '' @ StrCat_nat (snd vec)
                                 @ '', expected: '' @ StrCat_nat dim\<rparr>)
           else
             (let s2 = s1\<lparr>preagg_total' := Size sub_results, knn_scores' := []\<rparr>;
                  s3 = (if is_HnswVectorIndex (dynamic_type (ops E) vec_index)
                        then SearchKnnHnsw E vec_index limit vec ef_runtime sub_results s2
                        else SearchKnnFlat E vec_index limit vec sub_results s2);
                  out = map snd (knn_distances' s3)
              in (DocVec out,
                  s3\<lparr>knn_scores' := knn_scores' s3 @
                        map (\<lambda>p. (snd p, fst p)) (knn_distances' s3)\<rparr>))))"

text \<open>The two profiling steps of \<^verbatim>\<open>SearchGeneric\<close>, on the evaluator's state.\<close>

definition profile_start :: "'i SearchEnv \<Rightarrow> BasicSearch \<Rightarrow> nat \<times> BasicSearch" where
  "profile_start E s =
     (case profile_builder' s of
        None \<Rightarrow> (0, s)
      | Some pb \<Rightarrow>
          (steady_clock_now E (clock_reads s),
           s\<lparr>profile_builder' := Some (ProfileBuilder_Start pb),
              clock_reads := clock_reads s + 1\<rparr>))"

definition profile_finish ::
  "'i SearchEnv \<Rightarrow> nat \<Rightarrow> AstNode \<Rightarrow> IndexResult \<Rightarrow> BasicSearch \<Rightarrow> BasicSearch option" where
  "profile_finish E start node result s =
     (case profile_builder' s of
        None \<Rightarrow> Some s
      | Some pb \<Rightarrow>
          (case ProfileBuilder_Finish (StrCat_double E) (steady_clock_now E (clock_reads s))
                  start node result pb of
             None \<Rightarrow> None
           | Some pb1 \<Rightarrow>
               Some (s\<lparr>profile_builder' := Some pb1, clock_reads := clock_reads s + 1\<rparr>)))"

text \<open>
  \<^verbatim>\<open>SearchGeneric\<close>, the overloads of \<^verbatim>\<open>Search\<close> it dispatches to, and \<^verbatim>\<open>GetSubResults\<close>
  over the children of a logical node. The \<^verbatim>\<open>DCHECK\<close>s of the overloads and the one on the
  order of a result are \<open>None\<close> branches.
\<close>

fun SearchGeneric ::
  "'i SearchEnv \<Rightarrow> AstNode \<Rightarrow> string \<Rightarrow> bool \<Rightarrow> BasicSearch \<Rightarrow> (IndexResult \<times> BasicSearch) option"
and Search ::
  "'i SearchEnv \<Rightarrow> AstNode \<Rightarrow> string \<Rightarrow> BasicSearch \<Rightarrow> (IndexResult \<times> BasicSearch) option"
and GetSubResults ::
  "'i SearchEnv \<Rightarrow> AstNode list \<Rightarrow> string \<Rightarrow> BasicSearch
     \<Rightarrow> (IndexResult list \<times> BasicSearch) option" where
  "SearchGeneric E node active_field top_level s =
     (if error' s \<noteq> [] then Some (IndexResult_empty, s)
      else case Search E node active_field (snd (profile_start E s)) of
        None \<Rightarrow> None
      | Some (result, s2) \<Rightarrow>
          if \<not> (top_level \<or> is_AstKnnNode node \<or> sorted (celems (Borrowed result))) then None
          else (case profile_finish E (fst (profile_start E s)) node result s2 of
                  None \<Rightarrow> None
                | Some s3 \<Rightarrow> Some (result, s3)))"
| "Search E Monostate active_field s = Some (IndexResult_empty, s)"
| "Search E AstStarNode active_field s = Search_Star E active_field s"
| "Search E AstStarFieldNode active_field s = Search_StarField E active_field s"
| "Search E (AstTermNode affix) active_field s = Search_Term E affix active_field s"
| "Search E (AstPrefixNode affix) active_field s =
     Search_Affix E (MatchPrefix (ops E)) affix active_field s"
| "Search E (AstSuffixNode affix) active_field s =
     Search_Affix E (MatchSuffix (ops E)) affix active_field s"
| "Search E (AstInfixNode affix) active_field s =
     Search_Affix E (MatchInfix (ops E)) affix active_field s"
| "Search E (AstRangeNode lo hi) active_field s = Search_Range E lo hi active_field s"
| "Search E (AstNegateNode node) active_field s =
     (case SearchGeneric E node active_field False s of
        None \<Rightarrow> None
      | Some (result, s1) \<Rightarrow>
          Some (DocVec (negate_matched (GetAllDocs (search_indices E)) (Take result)), s1))"
| "Search E (AstLogicalNode op nodes) active_field s =
     (case GetSubResults E nodes active_field s of
        None \<Rightarrow> None
      | Some (sub_results, s1) \<Rightarrow> Some (UnifyResults sub_results op, s1))"
| "Search E (AstFieldNode field node) active_field s =
     (if active_field \<noteq> [] then None else SearchGeneric E node field False s)"
| "Search E (AstTagsNode tags) active_field s = Search_Tags E tags active_field s"
| "Search E (AstKnnNode limit field vec ef_runtime score_alias knn_filter) active_field s =
     (if active_field \<noteq> [] then None
      else case SearchGeneric E knn_filter active_field False s of
        None \<Rightarrow> None
      | Some (sub_results, s1) \<Rightarrow> Some (Search_Knn E limit field vec ef_runtime sub_results s1))"
| "GetSubResults E [] active_field s = Some ([], s)"
| "GetSubResults E (node # nodes) active_field s =
     (case SearchGeneric E node active_field False s of
        None \<Rightarrow> None
      | Some (result, s1) \<Rightarrow>
          (case GetSubResults E nodes active_field s1 of
             None \<Rightarrow> None
           | Some (sub_results, s2) \<Rightarrow> Some (result # sub_results, s2)))"

text \<open>The top-level \<^verbatim>\<open>Search\<close> and the facade.\<close>

record SearchResult =
  total :: nat
  ids :: "DocId list"
  knn_scores :: "(DocId \<times> real) list"
  profile :: "AlgorithmProfile option"
  error :: string

definition BasicSearch_Search :: "'i SearchEnv \<Rightarrow> AstNode \<Rightarrow> BasicSearch \<Rightarrow> SearchResult option" where
  "BasicSearch_Search E query s =
     (case SearchGeneric E query [] True s of
        None \<Rightarrow> None
      | Some (result, s1) \<Rightarrow>
          (let profile = map_option ProfileBuilder_Take (profile_builder' s1);
               out = Take result
           in Some \<lparr>total = length out, ids = out, knn_scores = knn_scores' s1,
                    profile = profile, error = error' s1\<rparr>))"

definition SearchAlgorithm_Search :: "'i SearchEnv \<Rightarrow> AstNode \<Rightarrow> bool \<Rightarrow> SearchResult option" where
  "SearchAlgorithm_Search E query profiling_enabled =
     BasicSearch_Search E query
       (if profiling_enabled then EnableProfiling BasicSearch_new else BasicSearch_new)"

fun GetKnnScoreSortOption :: "AstNode \<Rightarrow> (string \<times> nat) option" where
  "GetKnnScoreSortOption (AstKnnNode limit field vec ef_runtime score_alias knn_filter) =
     Some (score_alias, limit)"
| "GetKnnScoreSortOption _ = None"

subsection \<open>Notions used to state the properties\<close>

text \<open>
  What is assumed of the index classes when documents are added and removed. \<open>holds index d\<close>
  says that the index object holds document \<open>d\<close>. An \<^verbatim>\<open>Add\<close> brings in no document but its
  own, and only when it returns true; a \<^verbatim>\<open>Remove\<close> takes its document out and brings in none.
\<close>

definition index_contract ::
  "(DocId \<Rightarrow> 'a \<Rightarrow> string \<Rightarrow> 'i \<Rightarrow> bool \<times> 'i) \<Rightarrow> (DocId \<Rightarrow> 'a \<Rightarrow> string \<Rightarrow> 'i \<Rightarrow> 'i)
     \<Rightarrow> ('i \<Rightarrow> DocId \<Rightarrow> bool) \<Rightarrow> bool" where
  "index_contract iAdd iRemove holds \<longleftrightarrow>
     (\<forall>doc access field index d.
        holds (snd (iAdd doc access field index)) d \<longrightarrow>
          (d = doc \<and> fst (iAdd doc access field index)) \<or> holds index d) \<and>
     (\<forall>doc access field index d.
        holds (iRemove doc access field index) d \<longrightarrow> d \<noteq> doc \<and> holds index d)"

text \<open>A freshly constructed index object holds no document.\<close>

definition makers_contract :: "'i index_makers \<Rightarrow> ('i \<Rightarrow> DocId \<Rightarrow> bool) \<Rightarrow> bool" where
  "makers_contract mk holds \<longleftrightarrow>
     (\<forall>d. (\<forall>b. \<not> holds (make_TextIndex mk b) d) \<and> (\<forall>n. \<not> holds (make_NumericIndex mk n) d) \<and>
          \<not> holds (make_TagIndex mk) d \<and> \<not> holds (make_HnswVectorIndex mk) d \<and>
          \<not> holds (make_FlatVectorIndex mk) d \<and> \<not> holds (make_StringSortIndex mk) d \<and>
          \<not> holds (make_NumericSortIndex mk) d)"

text \<open>The index objects of a registry, and the keys of its two maps being unique.\<close>

definition contained :: "'i FieldIndices \<Rightarrow> (string \<times> 'i) list" where
  "contained fi = indices' fi @ sort_indices' fi"

definition unique_keys :: "'i FieldIndices \<Rightarrow> bool" where
  "unique_keys fi \<longleftrightarrow> distinct (map fst (indices' fi)) \<and> distinct (map fst (sort_indices' fi))"

text \<open>
  The invariant of the registry: \<^verbatim>\<open>all_ids_\<close> is strictly increasing and has every document
  that a contained index holds.
\<close>

definition FieldIndices_inv :: "('i \<Rightarrow> DocId \<Rightarrow> bool) \<Rightarrow> 'i FieldIndices \<Rightarrow> bool" where
  "FieldIndices_inv holds fi \<longleftrightarrow>
     sorted_unique (all_ids' fi) \<and>
     (\<forall>e \<in> set (contained fi). \<forall>d. holds (snd e) d \<longrightarrow> d \<in> set (all_ids' fi))"

text \<open>
  A client that keeps to the preconditions: it adds a document that is not present and
  removes one that is. \<open>None\<close> when a step is outside them.
\<close>

datatype 'a ClientOp = ClientAdd DocId 'a | ClientRemove DocId 'a

fun apply_ops ::
  "(DocId \<Rightarrow> 'a \<Rightarrow> string \<Rightarrow> 'i \<Rightarrow> bool \<times> 'i) \<Rightarrow> (DocId \<Rightarrow> 'a \<Rightarrow> string \<Rightarrow> 'i \<Rightarrow> 'i)
     \<Rightarrow> 'a ClientOp list \<Rightarrow> 'i FieldIndices \<Rightarrow> 'i FieldIndices option" where
  "apply_ops iAdd iRemove [] fi = Some fi"
| "apply_ops iAdd iRemove (ClientAdd doc access # rest) fi =
     (if doc \<in> set (all_ids' fi) then None
      else apply_ops iAdd iRemove rest (fst (snd (FieldIndices_Add iAdd iRemove doc access fi))))"
| "apply_ops iAdd iRemove (ClientRemove doc access # rest) fi =
     (case FieldIndices_Remove iRemove doc access fi of
        None \<Rightarrow> None
      | Some fi1 \<Rightarrow> apply_ops iAdd iRemove rest fi1)"

text \<open>
  From the calls made on index objects: the indices that accepted the document, in the order
  they did, and the indices \<^verbatim>\<open>Remove\<close> was called on, in the order of the calls.
\<close>

fun accepted_by :: "IndexCall list \<Rightarrow> (string \<times> IndexMap) list" where
  "accepted_by [] = []"
| "accepted_by (AddCall field m True # cs) = (field, m) # accepted_by cs"
| "accepted_by (c # cs) = accepted_by cs"

fun removed_from :: "IndexCall list \<Rightarrow> (string \<times> IndexMap) list" where
  "removed_from [] = []"
| "removed_from (RemoveCall field m # cs) = (field, m) # removed_from cs"
| "removed_from (c # cs) = removed_from cs"

fun refused_by :: "IndexCall list \<Rightarrow> (string \<times> IndexMap) list" where
  "refused_by [] = []"
| "refused_by (AddCall field m False # cs) = (field, m) # refused_by cs"
| "refused_by (c # cs) = refused_by cs"

text \<open>
  Whether an entry of a map accepts the document, and the entry after its \<^verbatim>\<open>Add\<close> and
  after its \<^verbatim>\<open>Remove\<close> have been called.
\<close>

definition accepts ::
  "(DocId \<Rightarrow> 'a \<Rightarrow> string \<Rightarrow> 'i \<Rightarrow> bool \<times> 'i) \<Rightarrow> DocId \<Rightarrow> 'a \<Rightarrow> string \<times> 'i \<Rightarrow> bool" where
  "accepts iAdd doc access e = fst (iAdd doc access (fst e) (snd e))"

definition after_add ::
  "(DocId \<Rightarrow> 'a \<Rightarrow> string \<Rightarrow> 'i \<Rightarrow> bool \<times> 'i) \<Rightarrow> DocId \<Rightarrow> 'a \<Rightarrow> string \<times> 'i \<Rightarrow> string \<times> 'i" where
  "after_add iAdd doc access e = (fst e, snd (iAdd doc access (fst e) (snd e)))"

definition after_remove ::
  "(DocId \<Rightarrow> 'a \<Rightarrow> string \<Rightarrow> 'i \<Rightarrow> 'i) \<Rightarrow> DocId \<Rightarrow> 'a \<Rightarrow> string \<times> 'i \<Rightarrow> string \<times> 'i" where
  "after_remove iRemove doc access e = (fst e, iRemove doc access (fst e) (snd e))"


text \<open>The maps of a registry hold no document at all, under unique keys.\<close>

definition holds_nothing :: "('i \<Rightarrow> DocId \<Rightarrow> bool) \<Rightarrow> (string \<times> 'i) list \<Rightarrow> bool" where
  "holds_nothing holds m \<longleftrightarrow> distinct (map fst m) \<and> (\<forall>e\<in>set m. \<forall>d. \<not> holds (snd e) d)"

subsection \<open>A small instance\<close>

text \<open>
  An index object that records the documents it holds, posting lists by word and a vector
  by document. A document accessor is the list of the fields the document has a value for.
  The instance is what the general statements are applied to.
\<close>

datatype ExampleIndex =
  ExampleIndex (ex_kind: IndexKind) (ex_docs: "DocId list")
    (ex_postings: "(string \<times> DocId list) list") (ex_vectors: "(DocId \<times> real list) list")

definition ex_Add :: "DocId \<Rightarrow> string list \<Rightarrow> string \<Rightarrow> ExampleIndex \<Rightarrow> bool \<times> ExampleIndex" where
  "ex_Add doc access field index =
     (if field \<in> set access
      then (True, ExampleIndex (ex_kind index) (insort doc (ex_docs index))
                    (ex_postings index) (ex_vectors index))
      else (False, index))"

definition ex_Remove :: "DocId \<Rightarrow> string list \<Rightarrow> string \<Rightarrow> ExampleIndex \<Rightarrow> ExampleIndex" where
  "ex_Remove doc access field index =
     ExampleIndex (ex_kind index) (removeAll doc (ex_docs index))
       (ex_postings index) (ex_vectors index)"

definition ex_holds :: "ExampleIndex \<Rightarrow> DocId \<Rightarrow> bool" where
  "ex_holds index d \<longleftrightarrow> d \<in> set (ex_docs index)"

definition ex_makers :: "ExampleIndex index_makers" where
  "ex_makers =
     \<lparr>make_TextIndex = (\<lambda>suffixtrie. ExampleIndex TextIndex [] [] []),
      make_NumericIndex = (\<lambda>bs. ExampleIndex NumericIndex [] [] []),
      make_TagIndex = ExampleIndex TagIndex [] [] [],
      make_HnswVectorIndex = ExampleIndex HnswVectorIndex [] [] [],
      make_FlatVectorIndex = ExampleIndex FlatVectorIndex [] [] [],
      make_StringSortIndex = ExampleIndex StringSortIndex [] [] [],
      make_NumericSortIndex = ExampleIndex NumericSortIndex [] [] []\<rparr>"

definition ex_schema :: Schema where
  "ex_schema =
     \<lparr>schema_fields =
        [(''title'', \<lparr>field_type = TEXT, flags = {SORTABLE}, short_name = ''title'',
                      special_params = TextParams False\<rparr>),
         (''price'', \<lparr>field_type = NUMERIC, flags = {}, short_name = ''price'',
                      special_params = NumericParams 0\<rparr>),
         (''tags'', \<lparr>field_type = TAG, flags = {}, short_name = ''tags'',
                     special_params = TagParams\<rparr>),
         (''emb'', \<lparr>field_type = VECTOR, flags = {}, short_name = ''emb'',
                    special_params = VectorParams False\<rparr>)],
      field_names = [(''t'', ''title'')]\<rparr>"

text \<open>The registry of the schema with no document in it.\<close>

definition ex_empty :: "ExampleIndex FieldIndices" where
  "ex_empty =
     \<lparr>schema' = ex_schema,
      indices' = [(''title'', ExampleIndex TextIndex [] [] []),
                  (''price'', ExampleIndex NumericIndex [] [] []),
                  (''tags'', ExampleIndex TagIndex [] [] []),
                  (''emb'', ExampleIndex FlatVectorIndex [] [] [])],
      sort_indices' = [(''title'', ExampleIndex StringSortIndex [] [] [])],
      all_ids' = [], synonyms' = None\<rparr>"

subsection \<open>Notions used to state the properties of the evaluator\<close>

text \<open>Whether a query has a KNN node anywhere in it.\<close>

fun has_knn :: "AstNode \<Rightarrow> bool" where
  "has_knn (AstKnnNode limit field vec ef_runtime score_alias knn_filter) = True"
| "has_knn (AstNegateNode node) = has_knn node"
| "has_knn (AstLogicalNode op nodes) = (\<exists>node\<in>set nodes. has_knn node)"
| "has_knn (AstFieldNode field node) = has_knn node"
| "has_knn _ = False"

text \<open>
  A well-formed environment: \<^verbatim>\<open>all_ids_\<close> is sorted-unique, and whatever a contained index
  hands to the evaluator is a sorted-unique sequence of documents of \<^verbatim>\<open>all_ids_\<close>. Each
  method is constrained on the index class that has it.
\<close>

definition good :: "'i SearchEnv \<Rightarrow> DocId list \<Rightarrow> bool" where
  "good E xs \<longleftrightarrow> sorted_unique xs \<and> set xs \<subseteq> set (GetAllDocs (search_indices E))"

definition index_wf :: "'i SearchEnv \<Rightarrow> 'i \<Rightarrow> bool" where
  "index_wf E i \<longleftrightarrow>
     good E (GetAllDocsWithNonNullValues (ops E) i) \<and>
     (dynamic_type (ops E) i = TextIndex \<longrightarrow>
        (\<forall>t b. good E (Take (Matching (ops E) i t b)))) \<and>
     (dynamic_type (ops E) i = TagIndex \<longrightarrow>
        (\<forall>t. good E (Take (TagMatching (ops E) i t)))) \<and>
     (dynamic_type (ops E) i = TextIndex \<or> dynamic_type (ops E) i = TagIndex \<longrightarrow>
        (\<forall>w. \<forall>c\<in>set (MatchPrefix (ops E) i w). good E (Take c)) \<and>
        (\<forall>w. \<forall>c\<in>set (MatchSuffix (ops E) i w). good E (Take c)) \<and>
        (\<forall>w. \<forall>c\<in>set (MatchInfix (ops E) i w). good E (Take c))) \<and>
     (dynamic_type (ops E) i = NumericIndex \<longrightarrow>
        (\<forall>lo hi. good E (celems (NumericRange (ops E) i lo hi))))"

definition env_wf :: "'i SearchEnv \<Rightarrow> bool" where
  "env_wf E \<longleftrightarrow>
     sorted_unique (GetAllDocs (search_indices E)) \<and>
     (\<forall>e\<in>set (contained (search_indices E)). index_wf E (snd e))"

text \<open>
  The nodes that a call of \<^verbatim>\<open>SearchGeneric\<close> enters, in the order in which they finish, each
  with its description and its nesting depth in the recursion: \<open>d\<close> for the node of the call,
  \<open>d + 1\<close> for the nodes it calls \<^verbatim>\<open>SearchGeneric\<close> on. A node that is reached after an
  error has been set is not entered. The state is threaded through the children as the
  evaluator does, to know where that happens.
\<close>

fun entered :: "'i SearchEnv \<Rightarrow> AstNode \<Rightarrow> string \<Rightarrow> nat \<Rightarrow> BasicSearch \<Rightarrow> (string \<times> nat) list"
and entered_below ::
  "'i SearchEnv \<Rightarrow> AstNode \<Rightarrow> string \<Rightarrow> nat \<Rightarrow> BasicSearch \<Rightarrow> (string \<times> nat) list"
and entered_list ::
  "'i SearchEnv \<Rightarrow> AstNode list \<Rightarrow> string \<Rightarrow> nat \<Rightarrow> BasicSearch \<Rightarrow> (string \<times> nat) list" where
  "entered E node active_field d s =
     (if error' s \<noteq> [] then []
      else entered_below E node active_field (Suc d) (snd (profile_start E s))
             @ [(GetNodeInfo (StrCat_double E) node, d)])"
| "entered_below E (AstNegateNode node) active_field d s = entered E node active_field d s"
| "entered_below E (AstLogicalNode op nodes) active_field d s =
     entered_list E nodes active_field d s"
| "entered_below E (AstFieldNode field node) active_field d s = entered E node field d s"
| "entered_below E (AstKnnNode limit field vec ef_runtime score_alias knn_filter) active_field d s =
     entered E knn_filter active_field d s"
| "entered_below E Monostate active_field d s = []"
| "entered_below E AstStarNode active_field d s = []"
| "entered_below E AstStarFieldNode active_field d s = []"
| "entered_below E (AstTermNode affix) active_field d s = []"
| "entered_below E (AstPrefixNode affix) active_field d s = []"
| "entered_below E (AstSuffixNode affix) active_field d s = []"
| "entered_below E (AstInfixNode affix) active_field d s = []"
| "entered_below E (AstRangeNode lo hi) active_field d s = []"
| "entered_below E (AstTagsNode tags) active_field d s = []"
| "entered_list E [] active_field d s = []"
| "entered_list E (node # nodes) active_field d s =
     entered E node active_field d s @
       (case SearchGeneric E node active_field False s of
          None \<Rightarrow> []
        | Some (result, s1) \<Rightarrow> entered_list E nodes active_field d s1)"

text \<open>
  The depth counter of the profile builder, and the events recorded so far, each reduced to
  its description and its depth.
\<close>

definition profile_depth :: "BasicSearch \<Rightarrow> nat option" where
  "profile_depth s = map_option depth' (profile_builder' s)"

definition profile_trace :: "BasicSearch \<Rightarrow> (string \<times> nat) list" where
  "profile_trace s =
     (case profile_builder' s of
        None \<Rightarrow> []
      | Some pb \<Rightarrow> map (\<lambda>e. (descr e, depth e)) (events (profile' pb)))"

text \<open>The events of a returned profile, each reduced to its description and its depth.\<close>

definition event_depths :: "AlgorithmProfile \<Rightarrow> (string \<times> nat) list" where
  "event_depths p = map (\<lambda>e. (descr e, depth e)) (events p)"

text \<open>
  The first error that the evaluation of a query sets, in evaluation order; empty when none
  is set. The error of a field lookup that expects an index of class \<open>is_T\<close>:
\<close>

definition lookup_error :: "'i SearchEnv \<Rightarrow> (IndexKind \<Rightarrow> bool) \<Rightarrow> string \<Rightarrow> string" where
  "lookup_error E is_T field =
     (case FieldIndices_GetIndex (search_indices E) field of
        None \<Rightarrow> ''Invalid field: '' @ field
      | Some index \<Rightarrow>
          if is_T (dynamic_type (ops E) index) then []
          else ''Wrong access type for field: '' @ field)"

fun first_error :: "'i SearchEnv \<Rightarrow> AstNode \<Rightarrow> string \<Rightarrow> string"
and first_error_list :: "'i SearchEnv \<Rightarrow> AstNode list \<Rightarrow> string \<Rightarrow> string" where
  "first_error E Monostate active_field = []"
| "first_error E AstStarNode active_field = []"
| "first_error E AstStarFieldNode active_field =
     (case FieldIndices_GetSortIndex (search_indices E) active_field of
        Some sort_index \<Rightarrow> []
      | None \<Rightarrow>
          (case FieldIndices_GetIndex (search_indices E) active_field of
             None \<Rightarrow> ''Invalid field: '' @ active_field
           | Some index \<Rightarrow> []))"
| "first_error E (AstTermNode affix) active_field =
     (if active_field \<noteq> [] then lookup_error E is_TextIndex active_field else [])"
| "first_error E (AstPrefixNode affix) active_field =
     (if active_field \<noteq> [] then lookup_error E is_TextIndex active_field else [])"
| "first_error E (AstSuffixNode affix) active_field =
     (if active_field \<noteq> [] then lookup_error E is_TextIndex active_field else [])"
| "first_error E (AstInfixNode affix) active_field =
     (if active_field \<noteq> [] then lookup_error E is_TextIndex active_field else [])"
| "first_error E (AstRangeNode lo hi) active_field = lookup_error E is_NumericIndex active_field"
| "first_error E (AstTagsNode tags) active_field = lookup_error E is_TagIndex active_field"
| "first_error E (AstNegateNode node) active_field = first_error E node active_field"
| "first_error E (AstLogicalNode op nodes) active_field = first_error_list E nodes active_field"
| "first_error E (AstFieldNode field node) active_field = first_error E node field"
| "first_error E (AstKnnNode limit field vec ef_runtime score_alias knn_filter) active_field =
     (if first_error E knn_filter active_field \<noteq> [] then first_error E knn_filter active_field
      else if lookup_error E is_BaseVectorIndex field \<noteq> []
      then lookup_error E is_BaseVectorIndex field
      else case FieldIndices_GetIndex (search_indices E) field of
        None \<Rightarrow> []
      | Some vec_index \<Rightarrow>
          if fst (Info (ops E) vec_index) \<noteq> snd vec
          then ''Wrong vector index dimensions, got: '' @ StrCat_nat (snd vec)
                 @ '', expected: '' @ StrCat_nat (fst (Info (ops E) vec_index))
          else [])"
| "first_error_list E [] active_field = []"
| "first_error_list E (node # nodes) active_field =
     (if first_error E node active_field \<noteq> [] then first_error E node active_field
      else first_error_list E nodes active_field)"

text \<open>
  The pairs a flat KNN ranks: the pairs left in \<^verbatim>\<open>knn_distances_\<close> followed by one pair
  for every document of the filter's result.
\<close>

definition flat_candidates ::
  "'i SearchEnv \<Rightarrow> 'i \<Rightarrow> real list \<times> nat \<Rightarrow> IndexResult \<Rightarrow> BasicSearch \<Rightarrow> (real \<times> DocId) list" where
  "flat_candidates E vec_index vec sub_results s =
     knn_distances' s @
       map (\<lambda>doc. (VectorDistance E (fst vec) (Get (ops E) vec_index doc)
                      (fst (Info (ops E) vec_index)) (snd (Info (ops E) vec_index)), doc))
         (Take sub_results)"

text \<open>What a flat KNN keeps of them: the \<^verbatim>\<open>min(limit, size)\<close> smallest, in order.\<close>

definition flat_ranked ::
  "'i SearchEnv \<Rightarrow> 'i \<Rightarrow> nat \<Rightarrow> real list \<times> nat \<Rightarrow> IndexResult \<Rightarrow> BasicSearch
     \<Rightarrow> (real \<times> DocId) list" where
  "flat_ranked E vec_index limit vec sub_results s =
     take (min limit (length (flat_candidates E vec_index vec sub_results s)))
       (sort (flat_candidates E vec_index vec sub_results s))"

text \<open>
  Two runs that end alike: both abort, or both return, with the same result and the same
  error string.
\<close>

abbreviation same_result ::
  "('a \<times> BasicSearch) option \<Rightarrow> ('a \<times> BasicSearch) option \<Rightarrow> bool" where
  "same_result \<equiv> rel_option (\<lambda>x y. fst x = fst y \<and> error' (snd x) = error' (snd y))"

text \<open>What a leaf of the evaluator may do to the state: nothing, or set the error string.\<close>

definition sets_error_only :: "BasicSearch \<Rightarrow> BasicSearch \<Rightarrow> bool" where
  "sets_error_only s s' \<longleftrightarrow> s' = s \<or> (\<exists>e. e \<noteq> [] \<and> s' = s\<lparr>error' := e\<rparr>)"

text \<open>The instance: index methods over \<open>ExampleIndex\<close>, and a registry of four documents.\<close>

definition ex_container :: "DocId list \<Rightarrow> Container" where
  "ex_container l = \<lparr>csize = length l, celems = l\<rparr>"

definition ex_prefix :: "string \<Rightarrow> string \<Rightarrow> bool" where
  "ex_prefix w k \<longleftrightarrow> take (length w) k = w"

definition ex_Matching :: "ExampleIndex \<Rightarrow> string \<Rightarrow> IndexResult" where
  "ex_Matching index w =
     (case map_of (ex_postings index) w of
        None \<Rightarrow> IndexResult_empty
      | Some l \<Rightarrow>
          if ex_kind index = TagIndex then SortedBlockListPtr (ex_container l)
          else CompressedBlockListPtr (ex_container l))"

definition ex_Match :: "(string \<Rightarrow> bool) \<Rightarrow> ExampleIndex \<Rightarrow> IndexResult list" where
  "ex_Match p index =
     map (\<lambda>e. CompressedBlockListPtr (ex_container (snd e)))
       (filter (\<lambda>e. p (fst e)) (ex_postings index))"

definition ex_Get :: "ExampleIndex \<Rightarrow> DocId \<Rightarrow> real list" where
  "ex_Get index doc = (case map_of (ex_vectors index) doc of None \<Rightarrow> [] | Some v \<Rightarrow> v)"

definition ex_Range :: "ExampleIndex \<Rightarrow> real \<Rightarrow> real \<Rightarrow> Container" where
  "ex_Range index lo hi =
     \<lparr>csize = length (ex_docs index),
      celems = filter (\<lambda>doc. list_all (\<lambda>x. lo \<le> x \<and> x \<le> hi) (ex_Get index doc)
                               \<and> ex_Get index doc \<noteq> []) (ex_docs index)\<rparr>"

definition ex_VectorDistance :: "real list \<Rightarrow> real list \<Rightarrow> nat \<Rightarrow> VectorSimilarity \<Rightarrow> real" where
  "ex_VectorDistance a b n sim =
     sum_list (map (\<lambda>p. (fst p - snd p) * (fst p - snd p)) (zip (take n a) (take n b)))"

definition ex_Knn ::
  "ExampleIndex \<Rightarrow> real list \<Rightarrow> nat \<Rightarrow> nat option \<Rightarrow> DocId list option \<Rightarrow> (real \<times> DocId) list" where
  "ex_Knn index v limit ef_runtime allowed =
     take limit
       (sort (map (\<lambda>doc. (ex_VectorDistance v (ex_Get index doc) 3 L2, doc))
                (case allowed of None \<Rightarrow> ex_docs index | Some l \<Rightarrow> l)))"

definition ex_ops :: "ExampleIndex index_ops" where
  "ex_ops =
     \<lparr>dynamic_type = ex_kind,
      GetAllDocsWithNonNullValues = ex_docs,
      Matching = (\<lambda>index w strip_whitespace. ex_Matching index w),
      TagMatching = ex_Matching,
      MatchPrefix = (\<lambda>index w. ex_Match (ex_prefix w) index),
      MatchSuffix = (\<lambda>index w. ex_Match (\<lambda>k. ex_prefix (rev w) (rev k)) index),
      MatchInfix = (\<lambda>index w. ex_Match (\<lambda>k. list_ex (\<lambda>n. ex_prefix w (drop n k)) [0..<Suc (length k)]) index),
      NumericRange = ex_Range,
      Info = (\<lambda>index. (3, L2)),
      Get = ex_Get,
      Knn = ex_Knn\<rparr>"

definition ex_indices :: "ExampleIndex FieldIndices" where
  "ex_indices =
     \<lparr>schema' = ex_schema,
      indices' =
        [(''title'', ExampleIndex TextIndex [2, 3, 4, 5]
            [(''hello'', [2, 3]), (''world'', [2, 4]), (''dragon'', [3]), (''peace'', [4]),
             (''quiet'', [5])] []),
         (''price'', ExampleIndex NumericIndex [2, 3, 4, 5] []
            [(2, [10]), (3, [20]), (4, [30]), (5, [40])]),
         (''tags'', ExampleIndex TagIndex [2, 3, 4, 5]
            [(''red'', [2, 4]), (''sale'', [2, 3]), (''blue'', [3, 5])] []),
         (''emb'', ExampleIndex FlatVectorIndex [2, 3, 4, 5] []
            [(2, [1, 0, 0]), (3, [0, 1, 0]), (4, [0, 0, 1]), (5, [1, 1, 0])])],
      sort_indices' = [(''title'', ExampleIndex StringSortIndex [2, 3, 4, 5] [] [])],
      all_ids' = [2, 3, 4, 5], synonyms' = None\<rparr>"

definition ex_env :: "ExampleIndex SearchEnv" where
  "ex_env =
     \<lparr>search_indices = ex_indices, ops = ex_ops, VectorDistance = ex_VectorDistance,
      steady_clock_now = (\<lambda>n. 10 * n), StrCat_double = (\<lambda>x. ''#'')\<rparr>"

(*DEFS*)

section \<open>The binary searches\<close>

declare lower_bound_loop.simps [simp del] upper_bound_loop.simps [simp del]

lemma lower_bound_loop_0: "lower_bound_loop xs d first 0 = first"
  by (subst lower_bound_loop.simps) simp

lemma lower_bound_loop_right:
  "len \<noteq> 0 \<Longrightarrow> xs ! (first + len div 2) < d \<Longrightarrow>
   lower_bound_loop xs d first len =
     lower_bound_loop xs d (first + len div 2 + 1) (len - len div 2 - 1)"
  by (subst lower_bound_loop.simps) simp

lemma lower_bound_loop_left:
  "len \<noteq> 0 \<Longrightarrow> \<not> xs ! (first + len div 2) < d \<Longrightarrow>
   lower_bound_loop xs d first len = lower_bound_loop xs d first (len div 2)"
  by (subst lower_bound_loop.simps) simp

lemma upper_bound_loop_0: "upper_bound_loop xs d first 0 = first"
  by (subst upper_bound_loop.simps) simp

lemma upper_bound_loop_left:
  "len \<noteq> 0 \<Longrightarrow> d < xs ! (first + len div 2) \<Longrightarrow>
   upper_bound_loop xs d first len = upper_bound_loop xs d first (len div 2)"
  by (subst upper_bound_loop.simps) simp

lemma upper_bound_loop_right:
  "len \<noteq> 0 \<Longrightarrow> \<not> d < xs ! (first + len div 2) \<Longrightarrow>
   upper_bound_loop xs d first len =
     upper_bound_loop xs d (first + len div 2 + 1) (len - len div 2 - 1)"
  by (subst upper_bound_loop.simps) simp

text \<open>On a sorted range both loops find the partition point.\<close>

lemma partition_point:
  assumes "n \<le> length xs" "\<forall>i<n. P (xs ! i)" "\<forall>i. n \<le> i \<and> i < length xs \<longrightarrow> \<not> P (xs ! i)"
  shows "length (takeWhile P xs) = n"
proof -
  have "takeWhile P xs = take n xs"
    using assms by (intro takeWhile_eq_take_P_nth) auto
  then show ?thesis using assms(1) by simp
qed

lemma lower_bound_loop_range:
  "first \<le> lower_bound_loop xs d first len \<and> lower_bound_loop xs d first len \<le> first + len"
proof (induction xs d first len rule: lower_bound_loop.induct)
  case (1 xs d first len)
  show ?case
  proof (cases "len = 0")
    case True
    then show ?thesis by (simp add: lower_bound_loop_0)
  next
    case False
    show ?thesis
    proof (cases "xs ! (first + len div 2) < d")
      case True
      have "len div 2 < len" using False by simp
      then show ?thesis
        using 1(1) [OF False True] by (simp add: lower_bound_loop_right [OF False True])
    next
      case b: False
      have "len div 2 < len" using False by simp
      then show ?thesis
        using 1(2) [OF False b] by (simp add: lower_bound_loop_left [OF False b])
    qed
  qed
qed

lemma upper_bound_loop_range:
  "first \<le> upper_bound_loop xs d first len \<and> upper_bound_loop xs d first len \<le> first + len"
proof (induction xs d first len rule: upper_bound_loop.induct)
  case (1 xs d first len)
  show ?case
  proof (cases "len = 0")
    case True
    then show ?thesis by (simp add: upper_bound_loop_0)
  next
    case False
    show ?thesis
    proof (cases "d < xs ! (first + len div 2)")
      case True
      have "len div 2 < len" using False by simp
      then show ?thesis
        using 1(1) [OF False True] by (simp add: upper_bound_loop_left [OF False True])
    next
      case b: False
      have "len div 2 < len" using False by simp
      then show ?thesis
        using 1(2) [OF False b] by (simp add: upper_bound_loop_right [OF False b])
    qed
  qed
qed

lemma lower_bound_loop_sorted:
  shows "sorted xs \<Longrightarrow> first + len \<le> length xs \<Longrightarrow> \<forall>i<first. xs ! i < d \<Longrightarrow>
         \<forall>i. first + len \<le> i \<and> i < length xs \<longrightarrow> \<not> xs ! i < d \<Longrightarrow>
         lower_bound_loop xs d first len = length (takeWhile (\<lambda>x. x < d) xs)"
proof (induction xs d first len rule: lower_bound_loop.induct)
  case (1 xs d first len)
  note s = 1(3) and bd = 1(4) and lo = 1(5) and hi = 1(6)
  show ?case
  proof (cases "len = 0")
    case True
    have "length (takeWhile (\<lambda>x. x < d) xs) = first"
      using bd lo hi True by (intro partition_point) auto
    then show ?thesis using True by (simp add: lower_bound_loop_0)
  next
    case False
    let ?m = "first + len div 2"
    have m: "?m < first + len" "?m < length xs" using False bd by auto
    show ?thesis
    proof (cases "xs ! ?m < d")
      case True
      have "\<forall>i<?m + 1. xs ! i < d"
      proof (intro allI impI)
        fix i assume "i < ?m + 1"
        then have "xs ! i \<le> xs ! ?m" using s m(2) by (intro sorted_nth_mono) auto
        then show "xs ! i < d" using True by simp
      qed
      moreover have "?m + 1 + (len - len div 2 - 1) = first + len" using False by simp
      ultimately have "lower_bound_loop xs d (?m + 1) (len - len div 2 - 1) =
          length (takeWhile (\<lambda>x. x < d) xs)"
        using 1(1) [OF False True s] bd hi by simp
      then show ?thesis by (simp add: lower_bound_loop_right [OF False True])
    next
      case b: False
      have "\<forall>i. ?m \<le> i \<and> i < length xs \<longrightarrow> \<not> xs ! i < d"
      proof (intro allI impI)
        fix i assume "?m \<le> i \<and> i < length xs"
        then have "xs ! ?m \<le> xs ! i" using s by (intro sorted_nth_mono) auto
        then show "\<not> xs ! i < d" using b by simp
      qed
      then have "lower_bound_loop xs d first (len div 2) = length (takeWhile (\<lambda>x. x < d) xs)"
        using 1(2) [OF False b s] bd lo m by simp
      then show ?thesis by (simp add: lower_bound_loop_left [OF False b])
    qed
  qed
qed

lemma upper_bound_loop_sorted:
  shows "sorted xs \<Longrightarrow> first + len \<le> length xs \<Longrightarrow> \<forall>i<first. \<not> d < xs ! i \<Longrightarrow>
         \<forall>i. first + len \<le> i \<and> i < length xs \<longrightarrow> d < xs ! i \<Longrightarrow>
         upper_bound_loop xs d first len = length (takeWhile (\<lambda>x. \<not> d < x) xs)"
proof (induction xs d first len rule: upper_bound_loop.induct)
  case (1 xs d first len)
  note s = 1(3) and bd = 1(4) and lo = 1(5) and hi = 1(6)
  show ?case
  proof (cases "len = 0")
    case True
    have "length (takeWhile (\<lambda>x. \<not> d < x) xs) = first"
      using bd lo hi True by (intro partition_point) auto
    then show ?thesis using True by (simp add: upper_bound_loop_0)
  next
    case False
    let ?m = "first + len div 2"
    have m: "?m < first + len" "?m < length xs" using False bd by auto
    show ?thesis
    proof (cases "d < xs ! ?m")
      case True
      have "\<forall>i. ?m \<le> i \<and> i < length xs \<longrightarrow> d < xs ! i"
      proof (intro allI impI)
        fix i assume "?m \<le> i \<and> i < length xs"
        then have "xs ! ?m \<le> xs ! i" using s by (intro sorted_nth_mono) auto
        then show "d < xs ! i" using True by simp
      qed
      then have "upper_bound_loop xs d first (len div 2) = length (takeWhile (\<lambda>x. \<not> d < x) xs)"
        using 1(1) [OF False True s] bd lo m by simp
      then show ?thesis by (simp add: upper_bound_loop_left [OF False True])
    next
      case b: False
      have "\<forall>i<?m + 1. \<not> d < xs ! i"
      proof (intro allI impI)
        fix i assume "i < ?m + 1"
        then have "xs ! i \<le> xs ! ?m" using s m(2) by (intro sorted_nth_mono) auto
        then show "\<not> d < xs ! i" using b by simp
      qed
      moreover have "?m + 1 + (len - len div 2 - 1) = first + len" using False by simp
      ultimately have "upper_bound_loop xs d (?m + 1) (len - len div 2 - 1) =
          length (takeWhile (\<lambda>x. \<not> d < x) xs)"
        using 1(2) [OF False b s] bd hi by simp
      then show ?thesis by (simp add: upper_bound_loop_right [OF False b])
    qed
  qed
qed

lemma lower_bound_sorted:
  "sorted xs \<Longrightarrow> lower_bound xs d = length (takeWhile (\<lambda>x. x < d) xs)"
  unfolding lower_bound_def by (rule lower_bound_loop_sorted) simp_all

lemma upper_bound_sorted:
  "sorted xs \<Longrightarrow> upper_bound xs d = length (takeWhile (\<lambda>x. \<not> d < x) xs)"
  unfolding upper_bound_def by (rule upper_bound_loop_sorted) simp_all

lemma lower_bound_le: "lower_bound xs d \<le> length xs"
  using lower_bound_loop_range [of 0 xs d "length xs"] by (simp add: lower_bound_def)

lemmas bound_loops =
  lower_bound_def upper_bound_def lower_bound_loop_0 lower_bound_loop_left lower_bound_loop_right
  upper_bound_loop_0 upper_bound_loop_left upper_bound_loop_right

section \<open>The result-set algebra\<close>

lemma set_intersection_subset1: "set (set_intersection xs ys) \<subseteq> set xs"
  by (induction xs ys rule: set_intersection.induct) auto

lemma set_set_intersection:
  "sorted_unique xs \<Longrightarrow> sorted_unique ys \<Longrightarrow> set (set_intersection xs ys) = set xs \<inter> set ys"
  by (induction xs ys rule: set_intersection.induct) (auto simp: not_less)

lemma sorted_set_intersection:
  "sorted_unique xs \<Longrightarrow> sorted_unique ys \<Longrightarrow> sorted_unique (set_intersection xs ys)"
  by (induction xs ys rule: set_intersection.induct) (use set_intersection_subset1 in \<open>auto simp: not_less\<close>)

lemma set_set_union: "set (set_union xs ys) = set xs \<union> set ys"
  by (induction xs ys rule: set_union.induct) auto

lemma sorted_set_union:
  "sorted_unique xs \<Longrightarrow> sorted_unique ys \<Longrightarrow> sorted_unique (set_union xs ys)"
  by (induction xs ys rule: set_union.induct) (auto simp: set_set_union)

lemma Take_Borrowed: "Take r = celems (Borrowed r)"
  by (cases r) simp_all

lemma sorted_unique_eqI:
  "sorted_unique xs \<Longrightarrow> sorted_unique ys \<Longrightarrow> set xs = set ys \<Longrightarrow> xs = ys"
  by (simp add: strict_sorted_equal)

lemma Take_Merge_AND:
  "Take (Merge a b AND) = set_intersection (Take a) (Take b)"
  by (simp add: Merge_def Take_Borrowed)

lemma Take_Merge_OR:
  "Take (Merge a b OR) = set_union (Take a) (Take b)"
  by (simp add: Merge_def Take_Borrowed)

lemma Merge_set:
  assumes "sorted_unique (Take a)" "sorted_unique (Take b)"
  shows "set (Take (Merge a b op)) = (if op = AND then set (Take a) \<inter> set (Take b) else set (Take a) \<union> set (Take b))"
  using assms by (cases op) (simp_all add: Take_Merge_AND Take_Merge_OR set_set_intersection set_set_union)

lemma Merge_sorted:
  assumes "sorted_unique (Take a)" "sorted_unique (Take b)"
  shows "sorted_unique (Take (Merge a b op))"
  using assms by (cases op) (simp_all add: Take_Merge_AND Take_Merge_OR sorted_set_intersection sorted_set_union)

lemma fold_Merge_sorted:
  "sorted_unique (Take first) \<Longrightarrow> \<forall>r\<in>set rest. sorted_unique (Take r) \<Longrightarrow>
   sorted_unique (Take (fold (\<lambda>matched out. Merge matched out op) rest first))"
  by (induction rest arbitrary: first) (simp_all add: Merge_sorted)

lemma fold_Merge_set:
  "sorted_unique (Take first) \<Longrightarrow> \<forall>r\<in>set rest. sorted_unique (Take r) \<Longrightarrow>
   set (Take (fold (\<lambda>matched out. Merge matched out op) rest first)) =
     (if op = AND then (\<Inter>r\<in>set (first # rest). set (Take r))
      else (\<Union>r\<in>set (first # rest). set (Take r)))"
proof (induction rest arbitrary: first)
  case Nil
  then show ?case by simp
next
  case (Cons m rest)
  have "sorted_unique (Take (Merge m first op))"
    using Cons.prems by (simp add: Merge_sorted)
  then have "set (Take (fold (\<lambda>matched out. Merge matched out op) rest (Merge m first op))) =
     (if op = AND then (\<Inter>r\<in>set (Merge m first op # rest). set (Take r))
      else (\<Union>r\<in>set (Merge m first op # rest). set (Take r)))"
    using Cons.prems by (intro Cons.IH) simp_all
  moreover have "set (Take (Merge m first op)) =
     (if op = AND then set (Take m) \<inter> set (Take first) else set (Take m) \<union> set (Take first))"
    using Cons.prems by (simp add: Merge_set)
  ultimately show ?case by auto
qed

lemma fold_Merge_perm:
  assumes "\<forall>r\<in>set (f1 # r1). sorted_unique (Take r)" "mset (f2 # r2) = mset (f1 # r1)"
  shows "Take (fold (\<lambda>matched out. Merge matched out op) r2 f2) =
         Take (fold (\<lambda>matched out. Merge matched out op) r1 f1)"
proof -
  have s: "set (f2 # r2) = set (f1 # r1)" using assms(2) by (rule mset_eq_setD)
  have a2: "\<forall>r\<in>set (f2 # r2). sorted_unique (Take r)" using assms(1) unfolding s .
  show ?thesis
  proof (rule sorted_unique_eqI)
    show "sorted_unique (Take (fold (\<lambda>matched out. Merge matched out op) r2 f2))"
      using a2 by (simp add: fold_Merge_sorted)
    show "sorted_unique (Take (fold (\<lambda>matched out. Merge matched out op) r1 f1))"
      using assms(1) by (simp add: fold_Merge_sorted)
    have "set (Take (fold (\<lambda>matched out. Merge matched out op) r2 f2)) =
       (if op = AND then (\<Inter>r\<in>set (f2 # r2). set (Take r)) else (\<Union>r\<in>set (f2 # r2). set (Take r)))"
      using a2 by (intro fold_Merge_set) simp_all
    also have "\<dots> = (if op = AND then (\<Inter>r\<in>set (f1 # r1). set (Take r)) else (\<Union>r\<in>set (f1 # r1). set (Take r)))"
      unfolding s ..
    also have "\<dots> = set (Take (fold (\<lambda>matched out. Merge matched out op) r1 f1))"
      using assms(1) by (intro fold_Merge_set [symmetric]) simp_all
    finally show "set (Take (fold (\<lambda>matched out. Merge matched out op) r2 f2)) =
      set (Take (fold (\<lambda>matched out. Merge matched out op) r1 f1))" .
  qed
qed

lemma UnifyResults_as_fold:
  assumes "xs \<noteq> []"
  obtains first rest where "mset (first # rest) = mset xs"
    "UnifyResults xs op = fold (\<lambda>matched out. Merge matched out op) rest first"
proof -
  obtain first rest where fr: "sort_key Size xs = first # rest"
    using assms by (cases "sort_key Size xs") (auto dest: arg_cong [where f = length])
  have "mset (first # rest) = mset xs"
    using fr by (metis mset_sort)
  moreover have "UnifyResults xs op = fold (\<lambda>matched out. Merge matched out op) rest first"
    using assms by (simp add: UnifyResults_def fr)
  ultimately show thesis by (rule that)
qed

lemma UnifyResults_fold_perm:
  assumes "\<forall>r\<in>set xs. sorted_unique (Take r)" "mset (first # rest) = mset xs"
  shows "Take (fold (\<lambda>matched out. Merge matched out op) rest first) = Take (UnifyResults xs op)"
proof -
  have ne: "xs \<noteq> []" using assms(2) by auto
  obtain f r where fr: "mset (f # r) = mset xs"
    "UnifyResults xs op = fold (\<lambda>matched out. Merge matched out op) r f"
    using ne by (rule UnifyResults_as_fold)
  have "\<forall>r\<in>set (f # r). sorted_unique (Take r)"
    using assms(1) mset_eq_setD [OF fr(1)] by simp
  then show ?thesis
    unfolding fr(2) using assms(2) fr(1) by (intro fold_Merge_perm) simp_all
qed

section \<open>Adding to and removing from the registry\<close>

lemma try_add_closed_form:
  "try_add iAdd doc access m c st =
     (map (after_add iAdd doc access) (takeWhile (accepts iAdd doc access) c) @
        (case dropWhile (accepts iAdd doc access) c of
           [] \<Rightarrow> []
         | x # r \<Rightarrow> after_add iAdd doc access x # r),
      st\<lparr>was_added := was_added st \<and> dropWhile (accepts iAdd doc access) c = [],
         successfully_added_indices :=
           successfully_added_indices st @
             map (\<lambda>e. (fst e, m)) (takeWhile (accepts iAdd doc access) c),
         calls := calls st @
           map (\<lambda>e. AddCall (fst e) m True) (takeWhile (accepts iAdd doc access) c) @
           (case dropWhile (accepts iAdd doc access) c of
              [] \<Rightarrow> []
            | x # r \<Rightarrow> [AddCall (fst x) m False])\<rparr>)"
proof (induction c arbitrary: st)
  case Nil
  then show ?case by simp
next
  case (Cons e c)
  obtain f i where e: "e = (f, i)" by (cases e)
  obtain ok i' where a: "iAdd doc access f i = (ok, i')" by (cases "iAdd doc access f i")
  show ?case
  proof (cases ok)
    case True
    then show ?thesis
      using e a by (simp add: Cons.IH accepts_def after_add_def)
  next
    case False
    then show ?thesis
      using e a by (simp add: accepts_def after_add_def)
  qed
qed

lemma remove_at_closed_form:
  "distinct (map fst c) \<Longrightarrow>
   remove_at iRemove doc access field c =
     map (\<lambda>e. if fst e = field then after_remove iRemove doc access e else e) c"
proof (induction c)
  case Nil
  then show ?case by simp
next
  case (Cons e c)
  obtain k i where e: "e = (k, i)" by (cases e)
  show ?case
  proof (cases "k = field")
    case True
    then have "\<forall>x\<in>set c. fst x \<noteq> field" using Cons.prems e by auto
    then have "map (\<lambda>e. if fst e = field then after_remove iRemove doc access e else e) c = c"
      by (induction c) auto
    then show ?thesis using True e by (simp add: after_remove_def)
  next
    case False
    then show ?thesis using Cons e by simp
  qed
qed

lemma remove_at_keys: "map fst (remove_at iRemove doc access field c) = map fst c"
  by (induction c) auto

lemma fold_remove_at_closed_form:
  "distinct (map fst c) \<Longrightarrow> distinct ks \<Longrightarrow>
   fold (remove_at iRemove doc access) ks c =
     map (\<lambda>e. if fst e \<in> set ks then after_remove iRemove doc access e else e) c"
proof (induction ks arbitrary: c)
  case Nil
  then show ?case by simp
next
  case (Cons k ks)
  have d: "distinct (map fst (remove_at iRemove doc access k c))"
    using Cons.prems(1) by (simp add: remove_at_keys)
  have "fold (remove_at iRemove doc access) (k # ks) c =
        fold (remove_at iRemove doc access) ks (remove_at iRemove doc access k c)" by simp
  also have "\<dots> = map (\<lambda>e. if fst e \<in> set ks then after_remove iRemove doc access e else e)
                      (remove_at iRemove doc access k c)"
    using d Cons.prems(2) by (intro Cons.IH) simp_all
  also have "\<dots> = map (\<lambda>e. if fst e \<in> set (k # ks) then after_remove iRemove doc access e else e) c"
    using Cons.prems by (simp add: remove_at_closed_form after_remove_def)
  finally show ?case .
qed

lemma roll_back_closed_form:
  "roll_back iRemove doc access succ (fi, cs) =
     (fi\<lparr>indices' := fold (remove_at iRemove doc access)
                         (map fst (filter (\<lambda>p. snd p = Indices) succ)) (indices' fi),
         sort_indices' := fold (remove_at iRemove doc access)
                         (map fst (filter (\<lambda>p. snd p = SortIndices) succ)) (sort_indices' fi)\<rparr>,
      cs @ map (\<lambda>p. RemoveCall (fst p) (snd p)) succ)"
proof (induction succ arbitrary: fi cs)
  case Nil
  then show ?case by simp
next
  case (Cons p succ)
  obtain f m where p: "p = (f, m)" by (cases p)
  show ?case using p by (cases m) (simp_all add: Cons.IH)
qed

lemma fst_after_add [simp]: "fst (after_add iAdd doc access e) = fst e"
  by (simp add: after_add_def)

lemma fst_after_remove [simp]: "fst (after_remove iRemove doc access e) = fst e"
  by (simp add: after_remove_def)

lemma fst_comp_after_add [simp]: "fst \<circ> after_add iAdd doc access = fst"
  by (rule ext) simp

lemma fst_comp_after_remove [simp]: "fst \<circ> after_remove iRemove doc access = fst"
  by (rule ext) simp

lemma roll_back_prefix:
  assumes "distinct (map fst p @ map fst q)"
  shows "fold (remove_at iRemove doc access) (map fst p) (map (after_add iAdd doc access) p @ q) =
         map (after_remove iRemove doc access) (map (after_add iAdd doc access) p) @ q"
proof -
  let ?h = "\<lambda>e. if fst e \<in> set (map fst p) then after_remove iRemove doc access e else e"
  have d1: "distinct (map fst (map (after_add iAdd doc access) p @ q))"
    using assms by simp
  have d2: "distinct (map fst p)" using assms by simp
  have "fold (remove_at iRemove doc access) (map fst p) (map (after_add iAdd doc access) p @ q) =
        map ?h (map (after_add iAdd doc access) p @ q)"
    using d1 d2 by (rule fold_remove_at_closed_form)
  also have "\<dots> = map ?h (map (after_add iAdd doc access) p) @ map ?h q" by simp
  also have "map ?h (map (after_add iAdd doc access) p) =
             map (after_remove iRemove doc access) (map (after_add iAdd doc access) p)"
    by simp
  also have "map ?h q = q"
  proof -
    have "\<forall>e\<in>set q. fst e \<notin> set (map fst p)" using assms by auto
    then show ?thesis by (simp add: map_idI)
  qed
  finally show ?thesis .
qed

lemma roll_back_whole:
  assumes "distinct (map fst p)"
  shows "fold (remove_at iRemove doc access) (map fst p) (map (after_add iAdd doc access) p) =
         map (after_remove iRemove doc access) (map (after_add iAdd doc access) p)"
  using roll_back_prefix [of p "[]" iRemove doc access iAdd] assms by simp

lemma filter_tagged_same [simp]:
  "filter (\<lambda>p. snd p = m) (map (\<lambda>e. (fst e, m)) xs) = map (\<lambda>e. (fst e, m)) xs"
  by (induction xs) simp_all

lemma filter_tagged_other [simp]:
  "m' \<noteq> m \<Longrightarrow> filter (\<lambda>p. snd p = m') (map (\<lambda>e. (fst e, m)) xs) = []"
  by (induction xs) simp_all

lemma map_fst_tagged [simp]: "map fst (map (\<lambda>e. (fst e, m)) xs) = map fst xs"
  by (induction xs) simp_all

text \<open>The three ways \<^verbatim>\<open>Add\<close> can end.\<close>

lemma Add_fails_in_indices:
  assumes u: "unique_keys fi"
    and dw: "dropWhile (accepts iAdd doc access) (indices' fi) = x # r"
  shows "FieldIndices_Add iAdd iRemove doc access fi =
     (False,
      fi\<lparr>indices' := map (after_remove iRemove doc access)
                        (map (after_add iAdd doc access)
                           (takeWhile (accepts iAdd doc access) (indices' fi)))
                      @ after_add iAdd doc access x # r\<rparr>,
      map (\<lambda>e. AddCall (fst e) Indices True) (takeWhile (accepts iAdd doc access) (indices' fi))
        @ [AddCall (fst x) Indices False]
        @ map (\<lambda>e. RemoveCall (fst e) Indices) (takeWhile (accepts iAdd doc access) (indices' fi)))"
proof -
  let ?tw = "takeWhile (accepts iAdd doc access) (indices' fi)"
  let ?st0 = "\<lparr>was_added = True, successfully_added_indices = [], calls = []\<rparr>"
  have c: "indices' fi = ?tw @ x # r" using dw by (metis takeWhile_dropWhile_id)
  have "distinct (map fst (?tw @ x # r))" using u c unfolding unique_keys_def by metis
  then have d: "distinct (map fst ?tw @ map fst (after_add iAdd doc access x # r))" by simp
  have t1: "try_add iAdd doc access Indices (indices' fi) ?st0 =
        (map (after_add iAdd doc access) ?tw @ after_add iAdd doc access x # r,
         \<lparr>was_added = False, successfully_added_indices = map (\<lambda>e. (fst e, Indices)) ?tw,
          calls = map (\<lambda>e. AddCall (fst e) Indices True) ?tw @ [AddCall (fst x) Indices False]\<rparr>)"
    unfolding try_add_closed_form by (simp add: dw)
  have rb: "roll_back iRemove doc access (map (\<lambda>e. (fst e, Indices)) ?tw)
          (fi\<lparr>indices' := map (after_add iAdd doc access) ?tw @ after_add iAdd doc access x # r\<rparr>,
           map (\<lambda>e. AddCall (fst e) Indices True) ?tw @ [AddCall (fst x) Indices False]) =
        (fi\<lparr>indices' := map (after_remove iRemove doc access) (map (after_add iAdd doc access) ?tw)
                      @ after_add iAdd doc access x # r\<rparr>,
         map (\<lambda>e. AddCall (fst e) Indices True) ?tw @ [AddCall (fst x) Indices False]
           @ map (\<lambda>e. RemoveCall (fst e) Indices) ?tw)"
    unfolding roll_back_closed_form
    using roll_back_prefix [OF d, of iRemove doc access iAdd]
    by (simp add: comp_def)
  show ?thesis
    by (simp add: FieldIndices_Add_def t1 rb)
qed

lemma dropWhile_Nil_takeWhile: "dropWhile P xs = [] \<Longrightarrow> takeWhile P xs = xs"
  by (metis append_Nil2 takeWhile_dropWhile_id)

lemma Add_fails_in_sort_indices:
  assumes u: "unique_keys fi"
    and dw1: "dropWhile (accepts iAdd doc access) (indices' fi) = []"
    and dw2: "dropWhile (accepts iAdd doc access) (sort_indices' fi) = y # r"
  shows "FieldIndices_Add iAdd iRemove doc access fi =
     (False,
      fi\<lparr>indices' := map (after_remove iRemove doc access)
                        (map (after_add iAdd doc access) (indices' fi)),
         sort_indices' := map (after_remove iRemove doc access)
                        (map (after_add iAdd doc access)
                           (takeWhile (accepts iAdd doc access) (sort_indices' fi)))
                      @ after_add iAdd doc access y # r\<rparr>,
      map (\<lambda>e. AddCall (fst e) Indices True) (indices' fi)
        @ map (\<lambda>e. AddCall (fst e) SortIndices True)
            (takeWhile (accepts iAdd doc access) (sort_indices' fi))
        @ [AddCall (fst y) SortIndices False]
        @ map (\<lambda>e. RemoveCall (fst e) Indices) (indices' fi)
        @ map (\<lambda>e. RemoveCall (fst e) SortIndices)
            (takeWhile (accepts iAdd doc access) (sort_indices' fi)))"
proof -
  let ?c1 = "indices' fi"
  let ?tw = "takeWhile (accepts iAdd doc access) (sort_indices' fi)"
  let ?st0 = "\<lparr>was_added = True, successfully_added_indices = [], calls = []\<rparr>"
  let ?st1 = "\<lparr>was_added = True, successfully_added_indices = map (\<lambda>e. (fst e, Indices)) ?c1,
          calls = map (\<lambda>e. AddCall (fst e) Indices True) ?c1\<rparr>"
  have tw1: "takeWhile (accepts iAdd doc access) ?c1 = ?c1"
    using dw1 by (rule dropWhile_Nil_takeWhile)
  have c: "sort_indices' fi = ?tw @ y # r" using dw2 by (metis takeWhile_dropWhile_id)
  have "distinct (map fst (?tw @ y # r))" using u c unfolding unique_keys_def by metis
  then have d2: "distinct (map fst ?tw @ map fst (after_add iAdd doc access y # r))" by simp
  have d1: "distinct (map fst ?c1)"
    using u unfolding unique_keys_def by simp
  have t1: "try_add iAdd doc access Indices ?c1 ?st0 = (map (after_add iAdd doc access) ?c1, ?st1)"
    unfolding try_add_closed_form by (simp add: dw1 tw1)
  have t2: "try_add iAdd doc access SortIndices (sort_indices' fi) ?st1 =
        (map (after_add iAdd doc access) ?tw @ after_add iAdd doc access y # r,
         \<lparr>was_added = False,
          successfully_added_indices =
            map (\<lambda>e. (fst e, Indices)) ?c1 @ map (\<lambda>e. (fst e, SortIndices)) ?tw,
          calls = map (\<lambda>e. AddCall (fst e) Indices True) ?c1 @
                  map (\<lambda>e. AddCall (fst e) SortIndices True) ?tw @
                  [AddCall (fst y) SortIndices False]\<rparr>)"
    unfolding try_add_closed_form by (simp add: dw2)
  have rb: "roll_back iRemove doc access
          (map (\<lambda>e. (fst e, Indices)) ?c1 @ map (\<lambda>e. (fst e, SortIndices)) ?tw)
          (fi\<lparr>indices' := map (after_add iAdd doc access) ?c1,
              sort_indices' := map (after_add iAdd doc access) ?tw @ after_add iAdd doc access y # r\<rparr>,
           map (\<lambda>e. AddCall (fst e) Indices True) ?c1 @
           map (\<lambda>e. AddCall (fst e) SortIndices True) ?tw @
           [AddCall (fst y) SortIndices False]) =
        (fi\<lparr>indices' := map (after_remove iRemove doc access) (map (after_add iAdd doc access) ?c1),
            sort_indices' := map (after_remove iRemove doc access) (map (after_add iAdd doc access) ?tw)
                      @ after_add iAdd doc access y # r\<rparr>,
         map (\<lambda>e. AddCall (fst e) Indices True) ?c1 @
         map (\<lambda>e. AddCall (fst e) SortIndices True) ?tw @
         [AddCall (fst y) SortIndices False] @
         map (\<lambda>e. RemoveCall (fst e) Indices) ?c1 @
         map (\<lambda>e. RemoveCall (fst e) SortIndices) ?tw)"
    unfolding roll_back_closed_form
    using roll_back_prefix [OF d2, of iRemove doc access iAdd]
          roll_back_whole [OF d1, of iRemove doc access iAdd]
    by (simp add: comp_def)
  show ?thesis
    by (simp add: FieldIndices_Add_def t1 t2 rb)
qed

lemma Add_succeeds:
  assumes dw1: "dropWhile (accepts iAdd doc access) (indices' fi) = []"
    and dw2: "dropWhile (accepts iAdd doc access) (sort_indices' fi) = []"
  shows "FieldIndices_Add iAdd iRemove doc access fi =
     (True,
      fi\<lparr>indices' := map (after_add iAdd doc access) (indices' fi),
         sort_indices' := map (after_add iAdd doc access) (sort_indices' fi),
         all_ids' := vec_insert (all_ids' fi) (upper_bound (all_ids' fi) doc) doc\<rparr>,
      map (\<lambda>e. AddCall (fst e) Indices True) (indices' fi)
        @ map (\<lambda>e. AddCall (fst e) SortIndices True) (sort_indices' fi))"
proof -
  let ?c1 = "indices' fi"
  let ?st0 = "\<lparr>was_added = True, successfully_added_indices = [], calls = []\<rparr>"
  let ?st1 = "\<lparr>was_added = True, successfully_added_indices = map (\<lambda>e. (fst e, Indices)) ?c1,
          calls = map (\<lambda>e. AddCall (fst e) Indices True) ?c1\<rparr>"
  have tw1: "takeWhile (accepts iAdd doc access) ?c1 = ?c1"
    using dw1 by (rule dropWhile_Nil_takeWhile)
  have tw2: "takeWhile (accepts iAdd doc access) (sort_indices' fi) = sort_indices' fi"
    using dw2 by (rule dropWhile_Nil_takeWhile)
  have t1: "try_add iAdd doc access Indices ?c1 ?st0 = (map (after_add iAdd doc access) ?c1, ?st1)"
    unfolding try_add_closed_form by (simp add: dw1 tw1)
  have t2: "try_add iAdd doc access SortIndices (sort_indices' fi) ?st1 =
        (map (after_add iAdd doc access) (sort_indices' fi),
         \<lparr>was_added = True,
          successfully_added_indices =
            map (\<lambda>e. (fst e, Indices)) ?c1 @ map (\<lambda>e. (fst e, SortIndices)) (sort_indices' fi),
          calls = map (\<lambda>e. AddCall (fst e) Indices True) ?c1 @
                  map (\<lambda>e. AddCall (fst e) SortIndices True) (sort_indices' fi)\<rparr>)"
    unfolding try_add_closed_form by (simp add: dw2 tw2)
  show ?thesis
    by (simp add: FieldIndices_Add_def t1 t2)
qed

text \<open>The case distinction, packaged.\<close>

lemma Add_cases:
  assumes "unique_keys fi"
  obtains
    (indices) x r where "dropWhile (accepts iAdd doc access) (indices' fi) = x # r"
  | (sort_indices) y r where "dropWhile (accepts iAdd doc access) (indices' fi) = []"
      "dropWhile (accepts iAdd doc access) (sort_indices' fi) = y # r"
  | (success) "dropWhile (accepts iAdd doc access) (indices' fi) = []"
      "dropWhile (accepts iAdd doc access) (sort_indices' fi) = []"
  by (cases "dropWhile (accepts iAdd doc access) (indices' fi)";
      cases "dropWhile (accepts iAdd doc access) (sort_indices' fi)") auto


lemma contract_add:
  "index_contract iAdd iRemove holds \<Longrightarrow> holds (snd (after_add iAdd doc access e)) d \<Longrightarrow>
   (d = doc \<and> accepts iAdd doc access e) \<or> holds (snd e) d"
  unfolding index_contract_def after_add_def accepts_def by auto

lemma contract_remove:
  "index_contract iAdd iRemove holds \<Longrightarrow> holds (snd (after_remove iRemove doc access e)) d \<Longrightarrow>
   d \<noteq> doc \<and> holds (snd e) d"
  unfolding index_contract_def after_remove_def by auto

lemma dropWhile_Cons_D:
  "dropWhile P xs = x # r \<Longrightarrow> \<not> P x \<and> x \<in> set xs \<and> set r \<subseteq> set xs \<and> set (takeWhile P xs) \<subseteq> set xs"
  by (metis dropWhile_eq_Cons_conv list.set_intros(1) set_dropWhileD set_subset_Cons set_takeWhileD subset_code(1) subset_trans)

lemma Add_failed:
  assumes u: "unique_keys fi"
    and a: "FieldIndices_Add iAdd iRemove doc access fi = (False, fi', cs)"
  shows "all_ids' fi' = all_ids' fi"
    and "map fst (indices' fi') = map fst (indices' fi)"
    and "map fst (sort_indices' fi') = map fst (sort_indices' fi)"
    and "\<forall>e'\<in>set (contained fi'). \<exists>e\<in>set (contained fi).
           e' = e \<or> (\<not> accepts iAdd doc access e \<and> e' = after_add iAdd doc access e) \<or>
           e' = after_remove iRemove doc access (after_add iAdd doc access e)"
proof -
  let ?A = "accepts iAdd doc access"
  have "all_ids' fi' = all_ids' fi \<and> map fst (indices' fi') = map fst (indices' fi) \<and>
        map fst (sort_indices' fi') = map fst (sort_indices' fi) \<and>
        (\<forall>e'\<in>set (contained fi'). \<exists>e\<in>set (contained fi).
           e' = e \<or> (\<not> ?A e \<and> e' = after_add iAdd doc access e) \<or>
           e' = after_remove iRemove doc access (after_add iAdd doc access e))"
  using u
  proof (cases rule: Add_cases [where iAdd = iAdd and doc = doc and access = access])
    case (indices x r)
    have fi': "fi' = fi\<lparr>indices' := map (after_remove iRemove doc access)
                        (map (after_add iAdd doc access) (takeWhile ?A (indices' fi)))
                      @ after_add iAdd doc access x # r\<rparr>"
      using a Add_fails_in_indices [OF u indices, of iRemove] by simp
    have c: "indices' fi = takeWhile ?A (indices' fi) @ x # r"
      using indices by (metis takeWhile_dropWhile_id)
    have "map fst (indices' fi') = map fst (takeWhile ?A (indices' fi) @ x # r)"
      by (simp add: fi')
    then have k: "map fst (indices' fi') = map fst (indices' fi)"
      using c by simp
    have d: "\<not> ?A x \<and> x \<in> set (indices' fi) \<and> set r \<subseteq> set (indices' fi) \<and>
             set (takeWhile ?A (indices' fi)) \<subseteq> set (indices' fi)"
      using indices by (rule dropWhile_Cons_D)
    show ?thesis
      using d k by (auto simp: fi' contained_def)
  next
    case (sort_indices y r)
    have fi': "fi' = fi\<lparr>indices' := map (after_remove iRemove doc access)
                        (map (after_add iAdd doc access) (indices' fi)),
         sort_indices' := map (after_remove iRemove doc access)
                        (map (after_add iAdd doc access) (takeWhile ?A (sort_indices' fi)))
                      @ after_add iAdd doc access y # r\<rparr>"
      using a Add_fails_in_sort_indices [OF u sort_indices, of iRemove] by simp
    have c: "sort_indices' fi = takeWhile ?A (sort_indices' fi) @ y # r"
      using sort_indices(2) by (metis takeWhile_dropWhile_id)
    have "map fst (sort_indices' fi') = map fst (takeWhile ?A (sort_indices' fi) @ y # r)"
      by (simp add: fi')
    then have k: "map fst (sort_indices' fi') = map fst (sort_indices' fi)"
      using c by simp
    have d: "\<not> ?A y \<and> y \<in> set (sort_indices' fi) \<and> set r \<subseteq> set (sort_indices' fi) \<and>
             set (takeWhile ?A (sort_indices' fi)) \<subseteq> set (sort_indices' fi)"
      using sort_indices(2) by (rule dropWhile_Cons_D)
    show ?thesis
      using d k by (auto simp: fi' contained_def)
  next
    case success
    then show ?thesis using a Add_succeeds [OF success, of iRemove] by simp
  qed
  then show "all_ids' fi' = all_ids' fi"
    and "map fst (indices' fi') = map fst (indices' fi)"
    and "map fst (sort_indices' fi') = map fst (sort_indices' fi)"
    and "\<forall>e'\<in>set (contained fi'). \<exists>e\<in>set (contained fi).
           e' = e \<or> (\<not> accepts iAdd doc access e \<and> e' = after_add iAdd doc access e) \<or>
           e' = after_remove iRemove doc access (after_add iAdd doc access e)"
    by blast+
qed

lemma Add_succeeded:
  assumes a: "FieldIndices_Add iAdd iRemove doc access fi = (True, fi', cs)"
  shows "fi' = fi\<lparr>indices' := map (after_add iAdd doc access) (indices' fi),
                  sort_indices' := map (after_add iAdd doc access) (sort_indices' fi),
                  all_ids' := vec_insert (all_ids' fi) (upper_bound (all_ids' fi) doc) doc\<rparr>"
    and "\<forall>e\<in>set (contained fi). accepts iAdd doc access e"
    and "cs = map (\<lambda>e. AddCall (fst e) Indices True) (indices' fi)
                @ map (\<lambda>e. AddCall (fst e) SortIndices True) (sort_indices' fi)"
proof -
  let ?A = "accepts iAdd doc access"
  let ?st0 = "\<lparr>was_added = True, successfully_added_indices = [], calls = []\<rparr>"
  have "fst (FieldIndices_Add iAdd iRemove doc access fi) \<longleftrightarrow>
          dropWhile ?A (indices' fi) = [] \<and> dropWhile ?A (sort_indices' fi) = []"
    by (simp add: FieldIndices_Add_def try_add_closed_form roll_back_closed_form Let_def)
  then have dw1: "dropWhile ?A (indices' fi) = []" and dw2: "dropWhile ?A (sort_indices' fi) = []"
    using a by simp_all
  have all: "\<forall>e\<in>set (indices' fi). ?A e" "\<forall>e\<in>set (sort_indices' fi). ?A e"
    using dw1 dw2 by (simp_all add: dropWhile_eq_Nil_conv)
  show "fi' = fi\<lparr>indices' := map (after_add iAdd doc access) (indices' fi),
                  sort_indices' := map (after_add iAdd doc access) (sort_indices' fi),
                  all_ids' := vec_insert (all_ids' fi) (upper_bound (all_ids' fi) doc) doc\<rparr>"
    using a Add_succeeds [OF dw1 dw2, of iRemove] by simp
  show "\<forall>e\<in>set (contained fi). ?A e" using all by (auto simp: contained_def)
  show "cs = map (\<lambda>e. AddCall (fst e) Indices True) (indices' fi)
                @ map (\<lambda>e. AddCall (fst e) SortIndices True) (sort_indices' fi)"
    using a Add_succeeds [OF dw1 dw2, of iRemove] by simp
qed

lemma accepted_by_append [simp]: "accepted_by (xs @ ys) = accepted_by xs @ accepted_by ys"
  by (induction xs rule: accepted_by.induct) simp_all

lemma removed_from_append [simp]: "removed_from (xs @ ys) = removed_from xs @ removed_from ys"
  by (induction xs rule: removed_from.induct) simp_all

lemma refused_by_append [simp]: "refused_by (xs @ ys) = refused_by xs @ refused_by ys"
  by (induction xs rule: refused_by.induct) simp_all

lemma calls_of_accepted [simp]:
  "accepted_by (map (\<lambda>e. AddCall (fst e) m True) xs) = map (\<lambda>e. (fst e, m)) xs"
  "removed_from (map (\<lambda>e. AddCall (fst e) m True) xs) = []"
  "refused_by (map (\<lambda>e. AddCall (fst e) m True) xs) = []"
  by (induction xs) simp_all

lemma calls_of_removed [simp]:
  "accepted_by (map (\<lambda>e. RemoveCall (fst e) m) xs) = []"
  "removed_from (map (\<lambda>e. RemoveCall (fst e) m) xs) = map (\<lambda>e. (fst e, m)) xs"
  "refused_by (map (\<lambda>e. RemoveCall (fst e) m) xs) = []"
  by (induction xs) simp_all

lemma Add_calls:
  assumes "FieldIndices_Add iAdd iRemove doc access fi = (r, fi', cs)"
  shows "(r \<longleftrightarrow> refused_by cs = []) \<and> removed_from cs = (if r then [] else accepted_by cs)"
proof -
  let ?A = "accepts iAdd doc access"
  have r: "r = fst (FieldIndices_Add iAdd iRemove doc access fi)"
    and cs: "cs = snd (snd (FieldIndices_Add iAdd iRemove doc access fi))"
    using assms by simp_all
  show ?thesis
  proof (cases "dropWhile ?A (indices' fi)")
    case (Cons x xs)
    show ?thesis
      unfolding r cs
      by (simp add: Cons FieldIndices_Add_def try_add_closed_form roll_back_closed_form
            Let_def comp_def)
  next
    case Nil
    show ?thesis
    proof (cases "dropWhile ?A (sort_indices' fi)")
      case (Cons y ys)
      show ?thesis
        unfolding r cs
        by (simp add: Nil Cons FieldIndices_Add_def try_add_closed_form roll_back_closed_form
              Let_def comp_def)
    next
      case Nil2: Nil
      show ?thesis
        unfolding r cs
        by (simp add: Nil Nil2 FieldIndices_Add_def try_add_closed_form roll_back_closed_form
              Let_def comp_def)
    qed
  qed
qed









lemma set_vec_insert: "set (vec_insert xs n d) = insert d (set xs)"
proof -
  have "set (take n xs) \<union> set (drop n xs) = set xs"
    by (metis append_take_drop_id set_append)
  then show ?thesis by (auto simp: vec_insert_def)
qed

lemma sorted_unique_insert_at_partition_point:
  "sorted_unique xs \<Longrightarrow> d \<notin> set xs \<Longrightarrow>
   sorted_unique (vec_insert xs (length (takeWhile (\<lambda>x. \<not> d < x) xs)) d)"
proof (induction xs)
  case Nil
  then show ?case by (simp add: vec_insert_def)
next
  case (Cons x xs)
  show ?case
  proof (cases "d < x")
    case True
    then show ?thesis using Cons.prems by (auto simp: vec_insert_def)
  next
    case False
    then have "x < d" using Cons.prems by auto
    moreover have "sorted_unique (vec_insert xs (length (takeWhile (\<lambda>x. \<not> d < x) xs)) d)"
      using Cons by simp
    moreover have "\<forall>y\<in>set (vec_insert xs (length (takeWhile (\<lambda>x. \<not> d < x) xs)) d). x < y"
      using Cons.prems \<open>x < d\<close> by (auto simp: set_vec_insert)
    ultimately show ?thesis using False by (simp add: vec_insert_def)
  qed
qed

lemma sorted_unique_vec_insert:
  assumes "sorted_unique xs" "d \<notin> set xs"
  shows "sorted_unique (vec_insert xs (upper_bound xs d) d)"
proof -
  have "sorted xs" using assms(1) by (rule strict_sorted_imp_sorted)
  then show ?thesis
    using sorted_unique_insert_at_partition_point [OF assms] by (simp add: upper_bound_sorted)
qed

lemma sorted_unique_vec_erase: "sorted_unique xs \<Longrightarrow> sorted_unique (vec_erase xs n)"
proof -
  assume s: "sorted_unique xs"
  have "xs = take n xs @ drop n xs" by simp
  then have "sorted_unique (take n xs @ drop n xs)" using s by simp
  then have a: "sorted_unique (take n xs)" "sorted_unique (drop n xs)"
    "\<forall>x\<in>set (take n xs). \<forall>y\<in>set (drop n xs). x < y"
    by (simp_all add: sorted_wrt_append del: append_take_drop_id)
  have b: "sorted_unique (drop (Suc n) xs)" using s by (rule sorted_wrt_drop)
  have "set (drop (Suc n) xs) \<subseteq> set (drop n xs)" by (rule set_drop_subset_set_drop) simp
  then have "\<forall>x\<in>set (take n xs). \<forall>y\<in>set (drop (Suc n) xs). x < y" using a(3) by blast
  then show ?thesis using a(1) b unfolding vec_erase_def by (simp add: sorted_wrt_append)
qed

lemma set_vec_erase:
  assumes "sorted_unique xs" "n < length xs"
  shows "set (vec_erase xs n) = set xs - {xs ! n}"
proof -
  have d: "distinct xs" using assms(1) by (simp add: strict_sorted_iff)
  have xs: "xs = take n xs @ xs ! n # drop (Suc n) xs"
    using assms(2) by (rule id_take_nth_drop)
  have "distinct (take n xs @ xs ! n # drop (Suc n) xs)" using d xs by simp
  then have "xs ! n \<notin> set (take n xs)" "xs ! n \<notin> set (drop (Suc n) xs)" by auto
  moreover have "set xs = set (take n xs) \<union> {xs ! n} \<union> set (drop (Suc n) xs)"
    by (subst xs) auto
  ultimately show ?thesis unfolding vec_erase_def by auto
qed

lemma remove_all_closed_form:
  "remove_all iRemove doc access c = map (after_remove iRemove doc access) c"
  by (induction c) (auto simp: after_remove_def)

lemma Remove_inv:
  assumes c: "index_contract iAdd iRemove holds"
    and i: "FieldIndices_inv holds fi"
    and r: "FieldIndices_Remove iRemove doc access fi = Some fi'"
  shows "FieldIndices_inv holds fi'"
proof -
  let ?it = "lower_bound (all_ids' fi) doc"
  have it: "?it \<noteq> length (all_ids' fi)" "all_ids' fi ! ?it = doc"
    and fi': "fi' = fi\<lparr>indices' := map (after_remove iRemove doc access) (indices' fi),
                      sort_indices' := map (after_remove iRemove doc access) (sort_indices' fi),
                      all_ids' := vec_erase (all_ids' fi) ?it\<rparr>"
    using r by (auto simp: FieldIndices_Remove_def Let_def remove_all_closed_form split: if_splits)
  have lt: "?it < length (all_ids' fi)" using it(1) lower_bound_le [of "all_ids' fi" doc] by simp
  have s: "sorted_unique (all_ids' fi)" using i by (simp add: FieldIndices_inv_def)
  have set': "set (all_ids' fi') = set (all_ids' fi) - {doc}"
    using set_vec_erase [OF s lt] it(2) by (simp add: fi')
  have "d \<in> set (all_ids' fi')" if e': "e' \<in> set (contained fi')" and h: "holds (snd e') d" for e' d
  proof -
    obtain e where e: "e \<in> set (contained fi)" and e'e: "e' = after_remove iRemove doc access e"
      using e' by (auto simp: fi' contained_def)
    have "d \<noteq> doc \<and> holds (snd e) d" using contract_remove [OF c] h e'e by blast
    moreover then have "d \<in> set (all_ids' fi)"
      using i e unfolding FieldIndices_inv_def by blast
    ultimately show ?thesis using set' by simp
  qed
  moreover have "sorted_unique (all_ids' fi')" using s by (simp add: fi' sorted_unique_vec_erase)
  ultimately show ?thesis unfolding FieldIndices_inv_def by blast
qed

lemma Remove_unique_keys:
  "unique_keys fi \<Longrightarrow> FieldIndices_Remove iRemove doc access fi = Some fi' \<Longrightarrow> unique_keys fi'"
  by (auto simp: FieldIndices_Remove_def Let_def remove_all_closed_form unique_keys_def
           split: if_splits)

lemma Add_unique_keys:
  assumes u: "unique_keys fi"
  shows "unique_keys (fst (snd (FieldIndices_Add iAdd iRemove doc access fi)))"
proof -
  obtain r fi' cs where a: "FieldIndices_Add iAdd iRemove doc access fi = (r, fi', cs)"
    by (cases "FieldIndices_Add iAdd iRemove doc access fi") auto
  show ?thesis
  proof (cases r)
    case True
    then show ?thesis using a u Add_succeeded(1) [of iAdd iRemove doc access fi fi' cs]
      by (simp add: unique_keys_def)
  next
    case False
    then have a': "FieldIndices_Add iAdd iRemove doc access fi = (False, fi', cs)" using a by simp
    show ?thesis using u Add_failed(2,3) [OF u a'] by (simp add: a unique_keys_def)
  qed
qed

lemma Add_inv:
  assumes c: "index_contract iAdd iRemove holds"
    and u: "unique_keys fi"
    and i: "FieldIndices_inv holds fi"
    and n: "doc \<notin> set (all_ids' fi)"
  shows "FieldIndices_inv holds (fst (snd (FieldIndices_Add iAdd iRemove doc access fi)))"
proof -
  obtain r fi' cs where a: "FieldIndices_Add iAdd iRemove doc access fi = (r, fi', cs)"
    by (cases "FieldIndices_Add iAdd iRemove doc access fi") auto
  have s: "sorted_unique (all_ids' fi)" using i by (simp add: FieldIndices_inv_def)
  have old: "\<And>e d. e \<in> set (contained fi) \<Longrightarrow> holds (snd e) d \<Longrightarrow> d \<in> set (all_ids' fi)"
    using i unfolding FieldIndices_inv_def by blast
  have "FieldIndices_inv holds fi'"
  proof (cases r)
    case True
    then have a': "FieldIndices_Add iAdd iRemove doc access fi = (True, fi', cs)" using a by simp
    note fi' = Add_succeeded(1) [OF a']
    have "d \<in> set (all_ids' fi')" if e': "e' \<in> set (contained fi')" and h: "holds (snd e') d" for e' d
    proof -
      obtain e where e: "e \<in> set (contained fi)" and e'e: "e' = after_add iAdd doc access e"
        using e' by (subst (asm) fi') (auto simp: contained_def)
      have "d = doc \<or> holds (snd e) d" using contract_add [OF c] h e'e by blast
      then show ?thesis using old [OF e] by (subst fi') (auto simp: set_vec_insert)
    qed
    moreover have "sorted_unique (all_ids' fi')"
      using s n by (subst fi') (simp add: sorted_unique_vec_insert)
    ultimately show ?thesis unfolding FieldIndices_inv_def by blast
  next
    case False
    then have a': "FieldIndices_Add iAdd iRemove doc access fi = (False, fi', cs)" using a by simp
    have "d \<in> set (all_ids' fi')" if e': "e' \<in> set (contained fi')" and h: "holds (snd e') d" for e' d
    proof -
      obtain e where e: "e \<in> set (contained fi)"
        and o: "e' = e \<or> (\<not> accepts iAdd doc access e \<and> e' = after_add iAdd doc access e) \<or>
             e' = after_remove iRemove doc access (after_add iAdd doc access e)"
        using Add_failed(4) [OF u a'] e' by blast
      have "holds (snd e) d"
        using o
      proof (elim disjE conjE)
        assume "e' = e" then show ?thesis using h by simp
      next
        assume "\<not> accepts iAdd doc access e" "e' = after_add iAdd doc access e"
        then show ?thesis using contract_add [OF c, of doc access e d] h by blast
      next
        assume x: "e' = after_remove iRemove doc access (after_add iAdd doc access e)"
        have "d \<noteq> doc \<and> holds (snd (after_add iAdd doc access e)) d"
          using contract_remove [OF c] h x by blast
        then show ?thesis using contract_add [OF c, of doc access e d] by blast
      qed
      then show ?thesis using old [OF e] Add_failed(1) [OF u a'] by simp
    qed
    moreover have "sorted_unique (all_ids' fi')" using s Add_failed(1) [OF u a'] by simp
    ultimately show ?thesis unfolding FieldIndices_inv_def by blast
  qed
  then show ?thesis by (simp add: a)
qed

lemma map_assign_keys:
  "map fst (map_assign m k v) =
     (if k \<in> set (map fst m) then map fst m else map fst m @ [k])"
  by (induction m) (auto split: if_splits)

lemma map_assign_distinct: "distinct (map fst m) \<Longrightarrow> distinct (map fst (map_assign m k v))"
  unfolding map_assign_keys by simp

lemma map_assign_entries: "e \<in> set (map_assign m k v) \<Longrightarrow> e \<in> set m \<or> e = (k, v)"
  by (induction m) (auto split: if_splits)

lemma holds_nothing_assign:
  "holds_nothing holds m \<Longrightarrow> \<forall>d. \<not> holds v d \<Longrightarrow> holds_nothing holds (map_assign m k v)"
  unfolding holds_nothing_def using map_assign_distinct map_assign_entries
  by (metis snd_conv)

lemma CreateIndices_holds_nothing:
  "makers_contract mk holds \<Longrightarrow> holds_nothing holds ind \<Longrightarrow>
   CreateIndices mk fs ind = Some ind' \<Longrightarrow> holds_nothing holds ind'"
proof (induction mk fs ind rule: CreateIndices.induct)
  case (1 mk ind)
  then show ?case by simp
next
  case (2 mk field_ident field_info rest ind)
  have m: "\<And>b d. \<not> holds (make_TextIndex mk b) d" "\<And>n d. \<not> holds (make_NumericIndex mk n) d"
    "\<And>d. \<not> holds (make_TagIndex mk) d" "\<And>d. \<not> holds (make_HnswVectorIndex mk) d"
    "\<And>d. \<not> holds (make_FlatVectorIndex mk) d"
    using "2.prems"(1) unfolding makers_contract_def by blast+
  show ?case
  proof (cases "NOINDEX \<in> flags field_info")
    case True
    then show ?thesis using 2 by simp
  next
    case False
    show ?thesis
    proof (cases "field_type field_info")
      case TEXT
      then obtain b where sp: "special_params field_info = TextParams b"
        using "2.prems"(3) False by (cases "special_params field_info") simp_all
      have "holds_nothing holds (map_assign ind field_ident (make_TextIndex mk b))"
        using "2.prems"(2) m(1) by (simp add: holds_nothing_assign)
      then show ?thesis
        using "2.IH"(2) [OF False TEXT sp "2.prems"(1)] "2.prems"(3) False TEXT sp by simp
    next
      case NUMERIC
      then obtain n where sp: "special_params field_info = NumericParams n"
        using "2.prems"(3) False by (cases "special_params field_info") simp_all
      have "holds_nothing holds (map_assign ind field_ident (make_NumericIndex mk n))"
        using "2.prems"(2) m(2) by (simp add: holds_nothing_assign)
      then show ?thesis
        using "2.IH"(3) [OF False NUMERIC sp "2.prems"(1)] "2.prems"(3) False NUMERIC sp by simp
    next
      case TAG
      then have sp: "special_params field_info = TagParams"
        using "2.prems"(3) False by (cases "special_params field_info") simp_all
      have "holds_nothing holds (map_assign ind field_ident (make_TagIndex mk))"
        using "2.prems"(2) m(3) by (simp add: holds_nothing_assign)
      then show ?thesis
        using "2.IH"(4) [OF False TAG sp "2.prems"(1)] "2.prems"(3) False TAG sp by simp
    next
      case VECTOR
      then obtain h where sp: "special_params field_info = VectorParams h"
        using "2.prems"(3) False by (cases "special_params field_info") simp_all
      have "holds_nothing holds (map_assign ind field_ident
               (if h then make_HnswVectorIndex mk else make_FlatVectorIndex mk))"
        using "2.prems"(2) m(4,5) by (simp add: holds_nothing_assign)
      then show ?thesis
        using "2.IH"(5) [OF False VECTOR sp "2.prems"(1)] "2.prems"(3) False VECTOR sp by simp
    qed
  qed
qed

lemma CreateSortIndices_holds_nothing:
  "makers_contract mk holds \<Longrightarrow> holds_nothing holds sind \<Longrightarrow>
   holds_nothing holds (CreateSortIndices mk fs sind)"
proof (induction mk fs sind rule: CreateSortIndices.induct)
  case (1 mk sind)
  then show ?case by simp
next
  case (2 mk field_ident field_info rest sind)
  have m: "\<And>d. \<not> holds (make_StringSortIndex mk) d" "\<And>d. \<not> holds (make_NumericSortIndex mk) d"
    using "2.prems"(1) unfolding makers_contract_def by blast+
  have a: "holds_nothing holds (map_assign sind field_ident (make_StringSortIndex mk))"
    "holds_nothing holds (map_assign sind field_ident (make_NumericSortIndex mk))"
    using "2.prems"(2) m by (simp_all add: holds_nothing_assign)
  show ?case
    using 2 a by (cases "field_type field_info") simp_all
qed

lemma FieldIndices_new_inv:
  assumes "makers_contract mk holds" "FieldIndices_new mk schema syn = Some fi"
  shows "unique_keys fi \<and> FieldIndices_inv holds fi \<and> all_ids' fi = []"
proof -
  have e: "holds_nothing holds ([] :: (string \<times> 'a) list)" by (simp add: holds_nothing_def)
  obtain ind where ind: "CreateIndices mk (schema_fields schema) [] = Some ind"
    and fi: "fi = \<lparr>schema' = schema, indices' = ind,
                sort_indices' = CreateSortIndices mk (schema_fields schema) [],
                all_ids' = [], synonyms' = syn\<rparr>"
    using assms(2) by (auto simp: FieldIndices_new_def split: option.splits)
  have "holds_nothing holds ind"
    using CreateIndices_holds_nothing [OF assms(1) e ind] .
  moreover have "holds_nothing holds (CreateSortIndices mk (schema_fields schema) [])"
    using CreateSortIndices_holds_nothing [OF assms(1) e] .
  ultimately show ?thesis
    by (auto simp: fi unique_keys_def FieldIndices_inv_def contained_def holds_nothing_def)
qed

lemma apply_ops_inv:
  assumes c: "index_contract iAdd iRemove holds"
  shows "unique_keys fi \<Longrightarrow> FieldIndices_inv holds fi \<Longrightarrow>
         apply_ops iAdd iRemove steps fi = Some fi' \<Longrightarrow> unique_keys fi' \<and> FieldIndices_inv holds fi'"
proof (induction steps arbitrary: fi)
  case Nil
  then show ?case by simp
next
  case (Cons step steps)
  show ?case
  proof (cases step)
    case (ClientAdd doc access)
    let ?fi1 = "fst (snd (FieldIndices_Add iAdd iRemove doc access fi))"
    have n: "doc \<notin> set (all_ids' fi)" and r: "apply_ops iAdd iRemove steps ?fi1 = Some fi'"
      using Cons.prems(3) ClientAdd by (auto split: if_splits)
    have "unique_keys ?fi1" using Cons.prems(1) by (rule Add_unique_keys)
    moreover have "FieldIndices_inv holds ?fi1"
      using c Cons.prems(1,2) n by (rule Add_inv)
    ultimately show ?thesis using r by (rule Cons.IH)
  next
    case (ClientRemove doc access)
    obtain fi1 where f: "FieldIndices_Remove iRemove doc access fi = Some fi1"
      and r: "apply_ops iAdd iRemove steps fi1 = Some fi'"
      using Cons.prems(3) ClientRemove by (auto split: option.splits)
    have "unique_keys fi1" using Cons.prems(1) f by (rule Remove_unique_keys)
    moreover have "FieldIndices_inv holds fi1" using c Cons.prems(2) f by (rule Remove_inv)
    ultimately show ?thesis using r by (rule Cons.IH)
  qed
qed

section \<open>The claims about the registry and the algebra\<close>

lemma ex_contract: "index_contract ex_Add ex_Remove ex_holds"
  unfolding index_contract_def ex_Add_def ex_Remove_def ex_holds_def
  by (auto simp: set_insort_key)

lemma ex_makers_contract: "makers_contract ex_makers ex_holds"
  unfolding makers_contract_def ex_makers_def ex_holds_def by simp

lemma ex_new: "FieldIndices_new ex_makers ex_schema None = Some ex_empty"
  by (simp add: FieldIndices_new_def ex_makers_def ex_schema_def ex_empty_def)

lemma ex_add_refused:
  "FieldIndices_Add ex_Add ex_Remove 7 [''title'', ''price''] ex_empty =
     (False, ex_empty,
      [AddCall ''title'' Indices True, AddCall ''price'' Indices True,
       AddCall ''tags'' Indices False, RemoveCall ''title'' Indices,
       RemoveCall ''price'' Indices])"
  by (simp add: FieldIndices_Add_def ex_empty_def ex_Add_def ex_Remove_def)

lemma ex_add_accepted:
  "FieldIndices_Add ex_Add ex_Remove 7 [''title'', ''price'', ''tags'', ''emb''] ex_empty =
     (True,
      ex_empty\<lparr>indices' := [(''title'', ExampleIndex TextIndex [7] [] []),
                  (''price'', ExampleIndex NumericIndex [7] [] []),
                  (''tags'', ExampleIndex TagIndex [7] [] []),
                  (''emb'', ExampleIndex FlatVectorIndex [7] [] [])],
               sort_indices' := [(''title'', ExampleIndex StringSortIndex [7] [] [])],
               all_ids' := [7]\<rparr>,
      [AddCall ''title'' Indices True, AddCall ''price'' Indices True,
       AddCall ''tags'' Indices True, AddCall ''emb'' Indices True,
       AddCall ''title'' SortIndices True])"
  by (simp add: FieldIndices_Add_def ex_empty_def ex_Add_def ex_Remove_def vec_insert_def
        bound_loops)




lemma ex_add_again:
  "FieldIndices_Add ex_Add ex_Remove 7 [''title'', ''price'']
     (ex_empty\<lparr>indices' := [(''title'', ExampleIndex TextIndex [7] [] []),
                  (''price'', ExampleIndex NumericIndex [7] [] []),
                  (''tags'', ExampleIndex TagIndex [7] [] []),
                  (''emb'', ExampleIndex FlatVectorIndex [7] [] [])],
               sort_indices' := [(''title'', ExampleIndex StringSortIndex [7] [] [])],
               all_ids' := [7]\<rparr>) =
   (False,
     ex_empty\<lparr>indices' := [(''title'', ExampleIndex TextIndex [] [] []),
                  (''price'', ExampleIndex NumericIndex [] [] []),
                  (''tags'', ExampleIndex TagIndex [7] [] []),
                  (''emb'', ExampleIndex FlatVectorIndex [7] [] [])],
               sort_indices' := [(''title'', ExampleIndex StringSortIndex [7] [] [])],
               all_ids' := [7]\<rparr>,
      [AddCall ''title'' Indices True, AddCall ''price'' Indices True,
       AddCall ''tags'' Indices False, RemoveCall ''title'' Indices,
       RemoveCall ''price'' Indices])"
  by (simp add: FieldIndices_Add_def ex_empty_def ex_Add_def ex_Remove_def)



text \<open>
  The claim as it was stated speaks of every document. \<^verbatim>\<open>Add\<close> does not look whether the
  document is present. In the instance document 7 is in every index; adding it again with a
  title and a price only is refused by the tag index, the title and the price index are
  rolled back, and the tag index, the vector index and the sort index, which were not
  reached or refused, still hold the document after \<^verbatim>\<open>Add\<close> has returned false.
\<close>

theorem FieldIndices_Add_present_document:
  "fst (FieldIndices_Add ex_Add ex_Remove 7 [''title'', ''price'', ''tags'', ''emb''] ex_empty) \<and>
   \<not> fst (FieldIndices_Add ex_Add ex_Remove 7 [''title'', ''price'']
     (fst (snd (FieldIndices_Add ex_Add ex_Remove 7
        [''title'', ''price'', ''tags'', ''emb''] ex_empty)))) \<and>
   map (\<lambda>e. (fst e, ex_holds (snd e) 7))
     (contained (fst (snd (FieldIndices_Add ex_Add ex_Remove 7 [''title'', ''price'']
        (fst (snd (FieldIndices_Add ex_Add ex_Remove 7
           [''title'', ''price'', ''tags'', ''emb''] ex_empty)))))))
     = [(''title'', False), (''price'', False), (''tags'', True), (''emb'', True),
        (''title'', True)]"
  by (simp add: ex_add_accepted ex_add_again contained_def ex_holds_def)

text \<open>
  Claim C2, as the code has it. \<^verbatim>\<open>Add\<close> returns true exactly when no index refused the
  document, and then \<^verbatim>\<open>Remove\<close> is called on no index. When an index refuses, \<^verbatim>\<open>Add\<close>
  returns false and \<^verbatim>\<open>Remove\<close> has been called on every index that accepted the document,
  in the order in which they accepted it: the roll-back loop walks
  \<^verbatim>\<open>successfully_added_indices\<close> from its first element to its last.
\<close>

theorem FieldIndices_Add_rollback_order:
  assumes "FieldIndices_Add iAdd iRemove doc access fi = (r, fi', cs)"
  shows "(r \<longleftrightarrow> refused_by cs = []) \<and> removed_from cs = (if r then [] else accepted_by cs)"
  using assms by (rule Add_calls)

theorem FieldIndices_Add_rollback_order_witness:
  "\<not> fst (FieldIndices_Add ex_Add ex_Remove 7 [''title'', ''price''] ex_empty) \<and>
   refused_by (snd (snd (FieldIndices_Add ex_Add ex_Remove 7 [''title'', ''price''] ex_empty)))
     = [(''tags'', Indices)] \<and>
   accepted_by (snd (snd (FieldIndices_Add ex_Add ex_Remove 7 [''title'', ''price''] ex_empty)))
     = [(''title'', Indices), (''price'', Indices)] \<and>
   removed_from (snd (snd (FieldIndices_Add ex_Add ex_Remove 7 [''title'', ''price''] ex_empty)))
     = [(''title'', Indices), (''price'', Indices)]"
  using FieldIndices_Add_rollback_order [OF ex_add_refused]
  by (simp add: ex_add_refused)

text \<open>
  The claim as it was stated asks for the reverse order. In the instance the title and the
  price index accept and the tag index refuses; \<^verbatim>\<open>Remove\<close> is then called on the title
  index first.
\<close>

theorem FieldIndices_Add_rollback_not_reversed:
  "\<not> fst (FieldIndices_Add ex_Add ex_Remove 7 [''title'', ''price''] ex_empty) \<and>
   removed_from (snd (snd (FieldIndices_Add ex_Add ex_Remove 7 [''title'', ''price''] ex_empty)))
     \<noteq> rev (accepted_by
            (snd (snd (FieldIndices_Add ex_Add ex_Remove 7 [''title'', ''price''] ex_empty))))"
  by (simp add: ex_add_refused)

text \<open>
  Claim C3. \<^verbatim>\<open>all_ids_\<close> is strictly increasing and has every document that a contained
  index holds. This holds of the freshly constructed registry, and of the registry after any
  sequence of \<^verbatim>\<open>Add\<close>s of documents that are not present and \<^verbatim>\<open>Remove\<close>s of documents
  that are.
\<close>

theorem FieldIndices_invariant:
  assumes "index_contract iAdd iRemove holds"
    and "makers_contract mk holds"
    and "FieldIndices_new mk schema syn = Some fi0"
    and "apply_ops iAdd iRemove steps fi0 = Some fi"
  shows "FieldIndices_inv holds fi0 \<and> FieldIndices_inv holds fi"
proof -
  have 0: "unique_keys fi0 \<and> FieldIndices_inv holds fi0 \<and> all_ids' fi0 = []"
    using assms(2,3) by (rule FieldIndices_new_inv)
  then have "unique_keys fi \<and> FieldIndices_inv holds fi"
    using apply_ops_inv [OF assms(1) _ _ assms(4)] by blast
  then show ?thesis using 0 by simp
qed

lemma ex_steps:
  "apply_ops ex_Add ex_Remove
     [ClientAdd 9 [''title'', ''price'', ''tags'', ''emb''],
      ClientAdd 7 [''title'', ''price'', ''tags'', ''emb''],
      ClientAdd 3 [''title''], ClientRemove 9 []] ex_empty =
   Some (ex_empty\<lparr>indices' := [(''title'', ExampleIndex TextIndex [7] [] []),
                  (''price'', ExampleIndex NumericIndex [7] [] []),
                  (''tags'', ExampleIndex TagIndex [7] [] []),
                  (''emb'', ExampleIndex FlatVectorIndex [7] [] [])],
               sort_indices' := [(''title'', ExampleIndex StringSortIndex [7] [] [])],
               all_ids' := [7]\<rparr>)"
  by (simp add: FieldIndices_Add_def FieldIndices_Remove_def ex_empty_def ex_Add_def
        ex_Remove_def vec_insert_def vec_erase_def bound_loops)

theorem FieldIndices_invariant_witness:
  "index_contract ex_Add ex_Remove ex_holds \<and> makers_contract ex_makers ex_holds \<and>
   FieldIndices_new ex_makers ex_schema None = Some ex_empty \<and>
   map_option all_ids' (apply_ops ex_Add ex_Remove
     [ClientAdd 9 [''title'', ''price'', ''tags'', ''emb''],
      ClientAdd 7 [''title'', ''price'', ''tags'', ''emb''],
      ClientAdd 3 [''title''], ClientRemove 9 []] ex_empty) = Some [7] \<and>
   FieldIndices_inv ex_holds (the (apply_ops ex_Add ex_Remove
     [ClientAdd 9 [''title'', ''price'', ''tags'', ''emb''],
      ClientAdd 7 [''title'', ''price'', ''tags'', ''emb''],
      ClientAdd 3 [''title''], ClientRemove 9 []] ex_empty))"
  unfolding ex_steps
  using FieldIndices_invariant [OF ex_contract ex_makers_contract ex_new ex_steps]
    ex_contract ex_makers_contract ex_new
  by simp

text \<open>
  Claim C4. For sorted-unique inputs, \<^verbatim>\<open>Merge\<close> with \<^verbatim>\<open>AND\<close> yields exactly the
  intersection of the two sets, \<^verbatim>\<open>Merge\<close> with \<^verbatim>\<open>OR\<close> exactly their union, and both
  outputs are sorted-unique.
\<close>

theorem Merge_intersection_union:
  assumes "sorted_unique (Take a)" and "sorted_unique (Take b)"
  shows "set (Take (Merge a b AND)) = set (Take a) \<inter> set (Take b) \<and>
         set (Take (Merge a b OR)) = set (Take a) \<union> set (Take b) \<and>
         sorted_unique (Take (Merge a b AND)) \<and> sorted_unique (Take (Merge a b OR))"
  using assms Merge_set [of a b AND] Merge_set [of a b OR] Merge_sorted [of a b AND]
    Merge_sorted [of a b OR] by simp

theorem Merge_intersection_union_witness:
  "sorted_unique (Take (DocVec [2, 3, 4])) \<and>
   sorted_unique (Take (CompressedBlockListPtr \<lparr>csize = 3, celems = [3, 4, 6]\<rparr>)) \<and>
   Take (Merge (DocVec [2, 3, 4]) (CompressedBlockListPtr \<lparr>csize = 3, celems = [3, 4, 6]\<rparr>) AND)
     = [3, 4] \<and>
   Take (Merge (DocVec [2, 3, 4]) (CompressedBlockListPtr \<lparr>csize = 3, celems = [3, 4, 6]\<rparr>) OR)
     = [2, 3, 4, 6] \<and>
   set (Take (Merge (DocVec [2, 3, 4]) (CompressedBlockListPtr \<lparr>csize = 3, celems = [3, 4, 6]\<rparr>) AND))
     = set (Take (DocVec [2, 3, 4])) \<inter> set (Take (CompressedBlockListPtr \<lparr>csize = 3, celems = [3, 4, 6]\<rparr>))"
proof -
  have a: "sorted_unique (Take (DocVec [2, 3, 4]))" by simp
  have b: "sorted_unique (Take (CompressedBlockListPtr \<lparr>csize = 3, celems = [3, 4, 6]\<rparr>))" by simp
  show ?thesis
    using Merge_intersection_union [OF a b] by (simp add: Merge_def)
qed

text \<open>
  Claim C5. Over sorted-unique children, the result of \<^verbatim>\<open>UnifyResults\<close> does not depend
  on the order of the children: any permutation of the child list gives the same result, the
  fold of \<^verbatim>\<open>Merge\<close> over the children in any order (so whatever order the internal sort
  puts them in) gives that result too, and for two children \<^verbatim>\<open>Merge\<close> commutes.
\<close>

theorem UnifyResults_order_independent:
  assumes "\<forall>r\<in>set xs. sorted_unique (Take r)" and "mset ys = mset xs"
  shows "Take (UnifyResults ys op) = Take (UnifyResults xs op) \<and>
         (\<forall>first rest. ys = first # rest \<longrightarrow>
            Take (fold (\<lambda>matched out. Merge matched out op) rest first) =
            Take (UnifyResults xs op)) \<and>
         (\<forall>a b. xs = [a, b] \<longrightarrow> Take (Merge a b op) = Take (Merge b a op))"
proof (intro conjI allI impI)
  have ys: "\<forall>r\<in>set ys. sorted_unique (Take r)"
    using assms mset_eq_setD by blast
  show "Take (UnifyResults ys op) = Take (UnifyResults xs op)"
  proof (cases "ys = []")
    case True
    then have "xs = []" using assms(2) by simp
    then show ?thesis using True by simp
  next
    case False
    obtain f r where fr: "mset (f # r) = mset ys"
      "UnifyResults ys op = fold (\<lambda>matched out. Merge matched out op) r f"
      using False by (rule UnifyResults_as_fold)
    have "mset (f # r) = mset xs" using fr(1) assms(2) by simp
    then show ?thesis unfolding fr(2) using assms(1) by (rule UnifyResults_fold_perm [rotated])
  qed
next
  fix first rest
  assume "ys = first # rest"
  then have "mset (first # rest) = mset xs" using assms(2) by simp
  with assms(1) show "Take (fold (\<lambda>matched out. Merge matched out op) rest first) =
            Take (UnifyResults xs op)"
    by (rule UnifyResults_fold_perm)
next
  fix a b
  assume xs: "xs = [a, b]"
  then have s: "sorted_unique (Take a)" "sorted_unique (Take b)" using assms(1) by simp_all
  show "Take (Merge a b op) = Take (Merge b a op)"
  proof (rule sorted_unique_eqI)
    show "sorted_unique (Take (Merge a b op))" using s by (simp add: Merge_sorted)
    show "sorted_unique (Take (Merge b a op))" using s by (simp add: Merge_sorted)
    show "set (Take (Merge a b op)) = set (Take (Merge b a op))"
      using s by (auto simp: Merge_set)
  qed
qed

theorem UnifyResults_order_independent_witness:
  "list_all (\<lambda>r. sorted_unique (Take r)) [DocVec [2, 3, 4, 5], DocVecPtr [3, 5], DocVec [3, 4, 5]] \<and>
   mset [DocVecPtr [3, 5], DocVec [3, 4, 5], DocVec [2, 3, 4, 5]] =
     mset [DocVec [2, 3, 4, 5], DocVecPtr [3, 5], DocVec [3, 4, 5]] \<and>
   Take (UnifyResults [DocVec [2, 3, 4, 5], DocVecPtr [3, 5], DocVec [3, 4, 5]] AND) = [3, 5] \<and>
   Take (UnifyResults [DocVecPtr [3, 5], DocVec [3, 4, 5], DocVec [2, 3, 4, 5]] AND) = [3, 5] \<and>
   Take (fold (\<lambda>matched out. Merge matched out AND) [DocVec [3, 4, 5], DocVecPtr [3, 5]]
           (DocVec [2, 3, 4, 5])) = [3, 5]"
proof -
  have s: "\<forall>r\<in>set [DocVec [2, 3, 4, 5], DocVecPtr [3, 5], DocVec [3, 4, 5]]. sorted_unique (Take r)"
    by simp
  have m: "mset [DocVec [2, 3, 4, 5], DocVec [3, 4, 5], DocVecPtr [3, 5]] =
     mset [DocVec [2, 3, 4, 5], DocVecPtr [3, 5], DocVec [3, 4, 5]]" by simp
  have m2: "mset [DocVecPtr [3, 5], DocVec [3, 4, 5], DocVec [2, 3, 4, 5]] =
     mset [DocVec [2, 3, 4, 5], DocVecPtr [3, 5], DocVec [3, 4, 5]]" by simp
  have u: "Take (UnifyResults [DocVec [2, 3, 4, 5], DocVecPtr [3, 5], DocVec [3, 4, 5]] AND) = [3, 5]"
    by (simp add: UnifyResults_def Size_def Merge_def)
  show ?thesis
    using UnifyResults_order_independent [OF s m, of AND]
      UnifyResults_order_independent [OF s m2, of AND] u m2
    by simp
qed

(*PROOFS*)

end
